theory Spec2Isabelle
  imports Main
begin

section \<open>The media-stream bridge of \<^verbatim>\<open>src/index.js\<close>\<close>

text \<open>
  The WebSocket route \<^verbatim>\<open>/media-stream\<close> of \<^verbatim>\<open>index.js\<close> creates, for each telephony
  connection, a handful of closure variables and a second socket to the AI service, and installs
  handlers on both sockets. The handlers are modelled as functions from the state of one
  connection to the new state and the list of calls they make on the outside world
  (\<open>send\<close> and \<open>close\<close> on the two sockets, lines written to the console), in order.
  JavaScript runs one handler at a time, so a session is a fold of the handlers over the events.
\<close>

subsection \<open>Values exchanged on the two links\<close>

text \<open>\<^verbatim>\<open>readyState\<close> of a socket of the \<^verbatim>\<open>ws\<close> library.\<close>

datatype ready_state = CONNECTING | OPEN | CLOSING | CLOSED

text \<open>
  A parsed telephony message is the object \<^verbatim>\<open>data\<close>: its \<^verbatim>\<open>event\<close> name and the optional
  members \<^verbatim>\<open>data.media\<close> and \<^verbatim>\<open>data.start\<close>. The timestamp is an integer number of
  milliseconds.
\<close>

record media_body =
  timestamp :: int
  payload :: string

record start_body =
  start_streamSid :: string

record tel_data =
  event :: string
  media :: "media_body option"
  start :: "start_body option"

text \<open>\<open>TelUnparsable\<close>: \<^verbatim>\<open>JSON.parse(message)\<close> throws (or returns \<^verbatim>\<open>null\<close>, and
  reading \<^verbatim>\<open>data.event\<close> throws).\<close>

datatype tel_message = TelUnparsable | TelParsed tel_data

text \<open>
  An item of the conversation as the routes of \<^verbatim>\<open>index.js\<close> read it
  (\<^verbatim>\<open>id\<close>, \<^verbatim>\<open>role\<close>, \<^verbatim>\<open>type\<close>, \<^verbatim>\<open>status\<close>, \<^verbatim>\<open>formatted.text\<close>,
  \<^verbatim>\<open>formatted.transcript\<close>, and whether \<^verbatim>\<open>formatted.audio\<close> is non-empty).
\<close>

datatype item_role = User | Assistant | System

datatype item_status = InProgress | Completed | Truncated

record conversation_item =
  item_id :: string
  item_role :: item_role
  item_kind :: string
  item_status :: item_status
  item_text :: string
  item_transcript :: string
  item_has_audio :: bool

text \<open>
  A parsed AI event is the object \<^verbatim>\<open>response\<close>: its \<^verbatim>\<open>type\<close>, and the members
  \<^verbatim>\<open>delta\<close>, \<^verbatim>\<open>item_id\<close> and \<^verbatim>\<open>item\<close> when present.
\<close>

record ai_response =
  rtype :: string
  rdelta :: "string option"
  ritem_id :: "string option"
  ritem :: "conversation_item option"

text \<open>\<open>AiUnparsable\<close>: \<^verbatim>\<open>JSON.parse(data)\<close> throws (or returns \<^verbatim>\<open>null\<close>, and
  reading \<^verbatim>\<open>response.type\<close> throws).\<close>

datatype ai_message = AiUnparsable | AiParsed ai_response

text \<open>Commands sent to the AI link; the truncate command carries
  \<^verbatim>\<open>item_id\<close>, \<^verbatim>\<open>content_index\<close> and \<^verbatim>\<open>audio_end_ms\<close>.\<close>

datatype ai_command =
    SessionUpdate
  | InputAudioBufferAppend string
  | ConversationItemTruncate string nat int

text \<open>Frames sent to the telephony link; each carries the value of \<^verbatim>\<open>streamSid\<close>
  (\<open>None\<close> is \<^verbatim>\<open>null\<close>).\<close>

datatype tel_command =
    MediaFrame "string option" string
  | MarkFrame "string option" string
  | ClearFrame "string option"

text \<open>What a handler does to the outside world, in the order it does it:
  \<open>AiSend\<close> is a call of \<^verbatim>\<open>openAiWs.send\<close>, \<open>AiCloseCall\<close> of \<^verbatim>\<open>openAiWs.close\<close>,
  \<open>TelSend\<close> of \<^verbatim>\<open>connection.send\<close>; the code never calls \<^verbatim>\<open>connection.close\<close>.\<close>

datatype effect =
    AiSend ai_command
  | AiCloseCall
  | TelSend tel_command
  | ConsoleLog string
  | ConsoleError string

subsection \<open>What \<^verbatim>\<open>index.js\<close> takes from elsewhere\<close>

text \<open>
  \<^verbatim>\<open>conversation.processEvent(response)\<close> either throws or returns an object whose
  \<^verbatim>\<open>item\<close> is an item or null; it may change the conversation either way.
\<close>

datatype pe_result = PeThrow | PeReturn "conversation_item option"

text \<open>
  The handlers are parameterised by the two functions they call that are not in
  \<^verbatim>\<open>index.js\<close>: the tracker's \<^verbatim>\<open>processEvent\<close>, over a conversation of any type \<open>'c\<close>,
  and Node's \<^verbatim>\<open>Buffer.from(d, "base64").toString("base64")\<close>.
\<close>

record 'c deps =
  processEvent :: "'c \<Rightarrow> ai_response \<Rightarrow> pe_result \<times> 'c"
  reencodeBase64 :: "string \<Rightarrow> string"

subsection \<open>State of one connection\<close>

text \<open>The two callbacks the code hands to \<^verbatim>\<open>setTimeout\<close>.\<close>

datatype timer_action = InitializeSession | EvictConversation

text \<open>
  The closure variables of the route handler, the conversation object and the number that
  stands for its identity in the registry, the \<^verbatim>\<open>readyState\<close> of both sockets, the
  module-level map \<^verbatim>\<open>activeConversations\<close>, a clock in milliseconds and the pending timers
  with the time each is due.
\<close>

record 'c session =
  streamSid :: "string option"
  latestMediaTimestamp :: int
  lastAssistantItem :: "string option"
  markQueue :: "string list"
  responseStartTimestampTwilio :: "int option"
  conversation :: 'c
  conversationRef :: nat
  openAiWsReadyState :: ready_state
  connectionReadyState :: ready_state
  activeConversations :: "string \<rightharpoonup> nat"
  clock :: nat
  timers :: "(nat \<times> timer_action) list"

text \<open>The state when the route handler has run: \<^verbatim>\<open>streamSid = null\<close>,
  \<^verbatim>\<open>latestMediaTimestamp = 0\<close>, \<^verbatim>\<open>lastAssistantItem = null\<close>, \<^verbatim>\<open>markQueue = []\<close>,
  \<^verbatim>\<open>responseStartTimestampTwilio = null\<close>, a new conversation, the AI socket connecting.\<close>

definition initialSession :: "'c \<Rightarrow> nat \<Rightarrow> (string \<rightharpoonup> nat) \<Rightarrow> nat \<Rightarrow> 'c session" where
  "initialSession c ref registry now =
     \<lparr> streamSid = None, latestMediaTimestamp = 0, lastAssistantItem = None, markQueue = [],
       responseStartTimestampTwilio = None, conversation = c, conversationRef = ref,
       openAiWsReadyState = CONNECTING, connectionReadyState = OPEN,
       activeConversations = registry, clock = now, timers = [] \<rparr>"

text \<open>JavaScript truthiness of a value that is null or a string, and of one that is null or a
  number: null, the empty string and 0 are falsy.\<close>

definition truthyString :: "string option \<Rightarrow> bool" where
  "truthyString v = (case v of None \<Rightarrow> False | Some s \<Rightarrow> s \<noteq> [])"

definition truthyNumber :: "int option \<Rightarrow> bool" where
  "truthyNumber v = (case v of None \<Rightarrow> False | Some n \<Rightarrow> n \<noteq> 0)"

definition LOG_EVENT_TYPES :: "string list" where
  "LOG_EVENT_TYPES =
     [''error'', ''response.audio_transcript.done'', ''response.content.done'',
      ''rate_limits.updated'', ''response.done'', ''input_audio_buffer.committed'',
      ''input_audio_buffer.speech_stopped'', ''input_audio_buffer.speech_started'',
      ''input_audio_transcription'', ''session.created'', ''conversation.item.created'',
      ''conversation.item.input_audio_transcription.completed'']"

subsection \<open>The handlers\<close>

text \<open>\<^verbatim>\<open>initializeSession\<close>: log and send the session update.\<close>

definition initializeSession :: "'c session \<Rightarrow> 'c session \<times> effect list" where
  "initializeSession s = (s, [ConsoleLog ''Sending session update:'', AiSend SessionUpdate])"

text \<open>\<^verbatim>\<open>handleSpeechStartedEvent\<close>: guarded by
  \<^verbatim>\<open>markQueue.length > 0 && responseStartTimestampTwilio != null\<close>; the truncate is sent only
  \<^verbatim>\<open>if (lastAssistantItem)\<close>, the clear always.\<close>

definition handleSpeechStartedEvent :: "'c session \<Rightarrow> 'c session \<times> effect list" where
  "handleSpeechStartedEvent s =
     (case responseStartTimestampTwilio s of
        None \<Rightarrow> (s, [])
      | Some r \<Rightarrow>
          if length (markQueue s) > 0 then
            (let elapsedTime = latestMediaTimestamp s - r;
                 truncateEvent =
                   (case lastAssistantItem s of
                      None \<Rightarrow> []
                    | Some i \<Rightarrow>
                        if i \<noteq> [] then [AiSend (ConversationItemTruncate i 0 elapsedTime)]
                        else [])
             in (s\<lparr> markQueue := [], lastAssistantItem := None,
                     responseStartTimestampTwilio := None \<rparr>,
                 truncateEvent @ [TelSend (ClearFrame (streamSid s))]))
          else (s, []))"

text \<open>\<^verbatim>\<open>sendMark\<close>: only \<^verbatim>\<open>if (streamSid)\<close>, send the mark frame and push the token.\<close>

definition sendMark :: "'c session \<Rightarrow> 'c session \<times> effect list" where
  "sendMark s =
     (if truthyString (streamSid s) then
        (s\<lparr> markQueue := markQueue s @ [''responsePart''] \<rparr>,
         [TelSend (MarkFrame (streamSid s) ''responsePart'')])
      else (s, []))"

text \<open>The body of the \<^verbatim>\<open>response.audio.delta\<close> branch, for the delta \<open>d\<close> and the
  \<open>item\<close> that \<^verbatim>\<open>processEvent\<close> returned.\<close>

definition forwardAudioDelta ::
  "'c deps \<Rightarrow> 'c session \<Rightarrow> string \<Rightarrow> conversation_item option \<Rightarrow> 'c session \<times> effect list" where
  "forwardAudioDelta D s d item =
     (let audioDelta = TelSend (MediaFrame (streamSid s) (reencodeBase64 D d));
          s1 = (if \<not> truthyNumber (responseStartTimestampTwilio s)
                then s\<lparr> responseStartTimestampTwilio := Some (latestMediaTimestamp s) \<rparr>
                else s);
          s2 = (case item of
                  None \<Rightarrow> s1
                | Some it \<Rightarrow> s1\<lparr> lastAssistantItem := Some (item_id it) \<rparr>);
          (s3, marks) = sendMark s2
      in (s3, audioDelta # marks))"

text \<open>The handler of \<^verbatim>\<open>openAiWs.on("message")\<close>. Anything thrown inside the \<^verbatim>\<open>try\<close> is
  caught by an empty \<^verbatim>\<open>catch\<close>.\<close>

definition onOpenAiMessage :: "'c deps \<Rightarrow> 'c session \<Rightarrow> ai_message \<Rightarrow> 'c session \<times> effect list" where
  "onOpenAiMessage D s msg =
     (case msg of
        AiUnparsable \<Rightarrow> (s, [])
      | AiParsed response \<Rightarrow>
          (let logged = (if rtype response \<in> set LOG_EVENT_TYPES
                         then [ConsoleLog (''Received event: '' @ rtype response)] else [])
           in case processEvent D (conversation s) response of
                (PeThrow, c) \<Rightarrow> (s\<lparr> conversation := c \<rparr>, logged)
              | (PeReturn item, c) \<Rightarrow>
                  (let s1 = s\<lparr> conversation := c \<rparr>;
                       (s2, e2) =
                         (if rtype response = ''response.audio.delta''
                             \<and> truthyString (rdelta response)
                          then (case rdelta response of
                                  Some d \<Rightarrow> forwardAudioDelta D s1 d item
                                | None \<Rightarrow> (s1, []))
                          else (s1, []));
                       (s3, e3) =
                         (if rtype response = ''input_audio_buffer.speech_started''
                          then handleSpeechStartedEvent s2
                          else (s2, []))
                   in (s3, logged @ e2 @ e3))))"

text \<open>The handler of \<^verbatim>\<open>connection.on("message")\<close>. Reading \<^verbatim>\<open>data.media.timestamp\<close> or
  \<^verbatim>\<open>data.start.streamSid\<close> of a missing member throws before anything is assigned; the
  \<^verbatim>\<open>catch\<close> writes the error to the console.\<close>

definition onConnectionMessage :: "'c session \<Rightarrow> tel_message \<Rightarrow> 'c session \<times> effect list" where
  "onConnectionMessage s message =
     (case message of
        TelUnparsable \<Rightarrow> (s, [ConsoleError ''Error parsing message:''])
      | TelParsed data \<Rightarrow>
          if event data = ''media'' then
            (case media data of
               None \<Rightarrow> (s, [ConsoleError ''Error parsing message:''])
             | Some m \<Rightarrow>
                 (s\<lparr> latestMediaTimestamp := timestamp m \<rparr>,
                  if openAiWsReadyState s = OPEN
                  then [AiSend (InputAudioBufferAppend (payload m))] else []))
          else if event data = ''start'' then
            (case start data of
               None \<Rightarrow> (s, [ConsoleError ''Error parsing message:''])
             | Some st \<Rightarrow>
                 (s\<lparr> streamSid := Some (start_streamSid st),
                     activeConversations :=
                       (activeConversations s)(start_streamSid st \<mapsto> conversationRef s),
                     responseStartTimestampTwilio := None,
                     latestMediaTimestamp := 0 \<rparr>,
                  [ConsoleLog ''Incoming stream has started'']))
          else if event data = ''mark'' then
            (if length (markQueue s) > 0 then s\<lparr> markQueue := tl (markQueue s) \<rparr> else s, [])
          else (s, [ConsoleLog ''Received non-media event:'']))"

text \<open>The handler of \<^verbatim>\<open>connection.on("close")\<close>: close the AI socket if it is open, and
  schedule the eviction 300000 ms from now.\<close>

definition onConnectionClose :: "'c session \<Rightarrow> 'c session \<times> effect list" where
  "onConnectionClose s =
     (let (s1, closing) =
            (if openAiWsReadyState s = OPEN
             then (s\<lparr> openAiWsReadyState := CLOSING \<rparr>, [AiCloseCall])
             else (s, []))
      in (s1\<lparr> timers := timers s1 @ [(clock s1 + 300000, EvictConversation)] \<rparr>,
          closing @ [ConsoleLog ''Client disconnected.'']))"

text \<open>The callback of that timer: \<^verbatim>\<open>if (streamSid) activeConversations.delete(streamSid)\<close>,
  with the value \<^verbatim>\<open>streamSid\<close> has when the timer fires.\<close>

definition evictConversation :: "'c session \<Rightarrow> 'c session \<times> effect list" where
  "evictConversation s =
     (case streamSid s of
        None \<Rightarrow> (s, [])
      | Some sid \<Rightarrow>
          if sid \<noteq> [] then (s\<lparr> activeConversations := (activeConversations s)(sid := None) \<rparr>, [])
          else (s, []))"

text \<open>The handlers of \<^verbatim>\<open>openAiWs.on("open")\<close>, \<^verbatim>\<open>("close")\<close> and \<^verbatim>\<open>("error")\<close>.\<close>

definition onOpenAiOpen :: "'c session \<Rightarrow> 'c session \<times> effect list" where
  "onOpenAiOpen s =
     (s\<lparr> timers := timers s @ [(clock s + 100, InitializeSession)] \<rparr>,
      [ConsoleLog ''Connected to the OpenAI Realtime API''])"

definition onOpenAiClose :: "'c session \<Rightarrow> 'c session \<times> effect list" where
  "onOpenAiClose s = (s, [ConsoleLog ''Disconnected from the OpenAI Realtime API''])"

definition onOpenAiError :: "'c session \<Rightarrow> 'c session \<times> effect list" where
  "onOpenAiError s = (s, [ConsoleError ''Error in the OpenAI WebSocket:''])"

subsection \<open>The event loop\<close>

text \<open>
  What can happen to a connection: a message or the close of the telephony socket; the open,
  a message, the close or an error of the AI socket; time passing. The socket library sets
  \<^verbatim>\<open>readyState\<close> before it calls the handler. A socket delivers messages only once it is
  open, and \<^verbatim>\<open>send\<close> throws only on a socket that is still connecting, so no \<^verbatim>\<open>send\<close> of
  a handler throws. When time passes, the timers that have become due run, earliest first, and
  leave the list.
\<close>

datatype event =
    TelMessage tel_message
  | TelClose
  | AiOpen
  | AiMessage ai_message
  | AiClose
  | AiError
  | Elapse nat

definition runTimer :: "'c session \<Rightarrow> timer_action \<Rightarrow> 'c session \<times> effect list" where
  "runTimer s a = (case a of InitializeSession \<Rightarrow> initializeSession s
                           | EvictConversation \<Rightarrow> evictConversation s)"

fun runTimers :: "'c session \<Rightarrow> timer_action list \<Rightarrow> 'c session \<times> effect list" where
  "runTimers s [] = (s, [])"
| "runTimers s (a # as) =
     (let (s1, e1) = runTimer s a; (s2, e2) = runTimers s1 as in (s2, e1 @ e2))"

definition elapse :: "'c session \<Rightarrow> nat \<Rightarrow> 'c session \<times> effect list" where
  "elapse s d =
     (let now = clock s + d;
          due = sort_key fst (filter (\<lambda>t. fst t \<le> now) (timers s));
          pending = filter (\<lambda>t. \<not> fst t \<le> now) (timers s)
      in runTimers (s\<lparr> clock := now, timers := pending \<rparr>) (map snd due))"

definition step :: "'c deps \<Rightarrow> 'c session \<Rightarrow> event \<Rightarrow> 'c session \<times> effect list" where
  "step D s ev =
     (case ev of
        TelMessage m \<Rightarrow> onConnectionMessage s m
      | TelClose \<Rightarrow> onConnectionClose (s\<lparr> connectionReadyState := CLOSED \<rparr>)
      | AiOpen \<Rightarrow> onOpenAiOpen (s\<lparr> openAiWsReadyState := OPEN \<rparr>)
      | AiMessage m \<Rightarrow> onOpenAiMessage D s m
      | AiClose \<Rightarrow> onOpenAiClose (s\<lparr> openAiWsReadyState := CLOSED \<rparr>)
      | AiError \<Rightarrow> onOpenAiError s
      | Elapse d \<Rightarrow> elapse s d)"

fun run :: "'c deps \<Rightarrow> 'c session \<Rightarrow> event list \<Rightarrow> 'c session \<times> effect list" where
  "run D s [] = (s, [])"
| "run D s (ev # evs) =
     (let (s1, e1) = step D s ev; (s2, e2) = run D s1 evs in (s2, e1 @ e2))"

subsection \<open>The conversation tracker\<close>

text \<open>
  Modelled from the spec: \<^verbatim>\<open>conversation.js\<close> (the class \<^verbatim>\<open>RealtimeConversation\<close> with
  \<^verbatim>\<open>processEvent\<close> and \<^verbatim>\<open>getItems\<close>) is imported by \<^verbatim>\<open>index.js\<close> and is not among the
  sources. The tracker keeps a mapping from item id to item and a separate insertion-ordered
  list of ids. An item-created event inserts the new item with status in-progress; a
  transcript, text or audio delta appends to (or flags) the item it names; an item-completed
  or item-truncated event updates the status; an event that names an unknown item id is
  ignored; any other event changes nothing. The result is the affected item, if any. The time
  of the last mutation is not kept.
\<close>

record tracker =
  itemLookup :: "string \<rightharpoonup> conversation_item"
  itemOrder :: "string list"

definition emptyTracker :: tracker where
  "emptyTracker = \<lparr> itemLookup = Map.empty, itemOrder = [] \<rparr>"

text \<open>Modelled from the spec: an update of the item named by an event; an absent or unknown
  id is a no-op with no affected item.\<close>

definition updateItem ::
  "tracker \<Rightarrow> string option \<Rightarrow> (conversation_item \<Rightarrow> conversation_item) \<Rightarrow> pe_result \<times> tracker" where
  "updateItem c i f =
     (case i of
        None \<Rightarrow> (PeReturn None, c)
      | Some k \<Rightarrow>
          (case itemLookup c k of
             None \<Rightarrow> (PeReturn None, c)
           | Some it \<Rightarrow> (PeReturn (Some (f it)), c\<lparr> itemLookup := (itemLookup c)(k \<mapsto> f it) \<rparr>)))"

text \<open>Modelled from the spec: \<^verbatim>\<open>processEvent\<close> of the absent \<^verbatim>\<open>conversation.js\<close>, with the
  event names of the protocol that \<^verbatim>\<open>index.js\<close> speaks.\<close>

definition trackerProcessEvent :: "tracker \<Rightarrow> ai_response \<Rightarrow> pe_result \<times> tracker" where
  "trackerProcessEvent c e =
     (let d = (case rdelta e of None \<Rightarrow> [] | Some x \<Rightarrow> x) in
      if rtype e = ''conversation.item.created'' then
        (case ritem e of
           None \<Rightarrow> (PeReturn None, c)
         | Some it \<Rightarrow>
             (let new = it\<lparr> item_status := InProgress \<rparr>
              in (PeReturn (Some new),
                  c\<lparr> itemLookup := (itemLookup c)(item_id it \<mapsto> new),
                      itemOrder := itemOrder c @ [item_id it] \<rparr>)))
      else if rtype e = ''response.audio_transcript.delta'' then
        updateItem c (ritem_id e) (\<lambda>it. it\<lparr> item_transcript := item_transcript it @ d \<rparr>)
      else if rtype e = ''response.text.delta'' then
        updateItem c (ritem_id e) (\<lambda>it. it\<lparr> item_text := item_text it @ d \<rparr>)
      else if rtype e = ''response.audio.delta'' then
        updateItem c (ritem_id e) (\<lambda>it. it\<lparr> item_has_audio := True \<rparr>)
      else if rtype e = ''response.output_item.done'' then
        updateItem c (ritem_id e) (\<lambda>it. it\<lparr> item_status := Completed \<rparr>)
      else if rtype e = ''conversation.item.truncated'' then
        updateItem c (ritem_id e) (\<lambda>it. it\<lparr> item_status := Truncated \<rparr>)
      else (PeReturn None, c))"

text \<open>Modelled from the spec: the ordered transcript, empty for an empty conversation.\<close>

definition listItems :: "tracker \<Rightarrow> conversation_item list" where
  "listItems c = List.map_filter (itemLookup c) (itemOrder c)"

text \<open>The bridge over this tracker. The re-encoding is taken on canonical base64 text, which
  it returns as it is.\<close>

definition trackerDeps :: "tracker deps" where
  "trackerDeps = \<lparr> processEvent = trackerProcessEvent, reencodeBase64 = (\<lambda>d. d) \<rparr>"

subsection \<open>Notation for traces\<close>

text \<open>The frames and events of the external interface, as events of the loop.\<close>

definition mediaEvent :: "media_body \<Rightarrow> event" where
  "mediaEvent m = TelMessage (TelParsed \<lparr> event = ''media'', media = Some m, start = None \<rparr>)"

definition startEvent :: "string \<Rightarrow> event" where
  "startEvent sid =
     TelMessage (TelParsed \<lparr> event = ''start'', media = None,
                            start = Some \<lparr> start_streamSid = sid \<rparr> \<rparr>)"

definition itemCreatedEvent :: "string \<Rightarrow> event" where
  "itemCreatedEvent i =
     AiMessage (AiParsed \<lparr> rtype = ''conversation.item.created'', rdelta = None,
                           ritem_id = None,
                           ritem = Some \<lparr> item_id = i, item_role = Assistant,
                                         item_kind = ''message'', item_status = InProgress,
                                         item_text = [], item_transcript = [],
                                         item_has_audio = False \<rparr> \<rparr>)"

definition audioDeltaEvent :: "string \<Rightarrow> string \<Rightarrow> event" where
  "audioDeltaEvent i d =
     AiMessage (AiParsed \<lparr> rtype = ''response.audio.delta'', rdelta = Some d,
                           ritem_id = Some i, ritem = None \<rparr>)"

definition speechStartedEvent :: event where
  "speechStartedEvent =
     AiMessage (AiParsed \<lparr> rtype = ''input_audio_buffer.speech_started'', rdelta = None,
                           ritem_id = None, ritem = None \<rparr>)"

text \<open>The timestamp that a telephony message assigns to \<^verbatim>\<open>latestMediaTimestamp\<close>, if it
  does; the timestamps of a trace, in order.\<close>

definition mediaTimestampOf :: "event \<Rightarrow> int option" where
  "mediaTimestampOf ev =
     (case ev of
        TelMessage (TelParsed data) \<Rightarrow>
          if event data = ''media'' then map_option timestamp (media data) else None
      | _ \<Rightarrow> None)"

definition mediaTimestamps :: "event list \<Rightarrow> int list" where
  "mediaTimestamps evs = List.map_filter mediaTimestampOf evs"

text \<open>A telephony message that takes the \<^verbatim>\<open>start\<close> case and assigns \<^verbatim>\<open>streamSid\<close>.\<close>

definition isStartFrame :: "event \<Rightarrow> bool" where
  "isStartFrame ev =
     (case ev of
        TelMessage (TelParsed data) \<Rightarrow> event data = ''start'' \<and> start data \<noteq> None
      | _ \<Rightarrow> False)"

text \<open>An event of the telephony socket.\<close>

definition isTelephonyEvent :: "event \<Rightarrow> bool" where
  "isTelephonyEvent ev = (case ev of TelMessage m \<Rightarrow> True | TelClose \<Rightarrow> True | _ \<Rightarrow> False)"

text \<open>The time that passes during a trace, in milliseconds.\<close>

fun elapsed :: "event list \<Rightarrow> nat" where
  "elapsed [] = 0"
| "elapsed (Elapse d # evs) = d + elapsed evs"
| "elapsed (ev # evs) = elapsed evs"

subsection \<open>Reading the effects and the state\<close>

text \<open>The truncate commands among the effects, as (item id, content index, cutoff in ms).\<close>

definition truncateOf :: "effect \<Rightarrow> (string \<times> nat \<times> int) option" where
  "truncateOf e =
     (case e of AiSend (ConversationItemTruncate i k ms) \<Rightarrow> Some (i, k, ms) | _ \<Rightarrow> None)"

definition truncatesSent :: "effect list \<Rightarrow> (string \<times> nat \<times> int) list" where
  "truncatesSent es = List.map_filter truncateOf es"

text \<open>The mark frames among the effects.\<close>

definition isMarkFrame :: "effect \<Rightarrow> bool" where
  "isMarkFrame e = (case e of TelSend (MarkFrame sid n) \<Rightarrow> True | _ \<Rightarrow> False)"

text \<open>The response start never lies ahead of the media clock, and the media clock never lies
  ahead of the bound \<open>m\<close> under which no further media timestamp falls.\<close>

definition timestampsOrdered :: "'c session \<Rightarrow> int \<Rightarrow> bool" where
  "timestampsOrdered s m =
     (0 \<le> m \<and> latestMediaTimestamp s \<le> m
      \<and> (case responseStartTimestampTwilio s of None \<Rightarrow> True
                                               | Some r \<Rightarrow> r \<le> latestMediaTimestamp s))"

text \<open>A session in the middle of a response: the stream \<open>CA1\<close> has started, the first chunk
  of item \<open>I1\<close> went out at 1000 ms and its mark is outstanding, the media clock is at 1800 ms.\<close>

definition respondingSession :: "tracker session" where
  "respondingSession =
     (initialSession emptyTracker 0 Map.empty 0)
       \<lparr> streamSid := Some ''CA1'', latestMediaTimestamp := 1800,
         lastAssistantItem := Some ''I1'', markQueue := [''responsePart''],
         responseStartTimestampTwilio := Some 1000, openAiWsReadyState := OPEN,
         activeConversations := [''CA1'' \<mapsto> 0] \<rparr>"

text \<open>Between a start frame and the close of the telephony socket: the conversation is in
  the registry under the session's \<^verbatim>\<open>streamSid\<close>, and no eviction is scheduled.\<close>

definition registered :: "string \<Rightarrow> nat \<Rightarrow> 'c session \<Rightarrow> bool" where
  "registered sid ref s =
     (streamSid s = Some sid \<and> conversationRef s = ref \<and> activeConversations s sid = Some ref
      \<and> EvictConversation \<notin> snd ` set (timers s))"

text \<open>After the close: every eviction scheduled is due at \<open>due\<close>; before that moment the
  eviction is still pending and the entry is there, from that moment on the entry is gone.\<close>

definition evictionPending :: "string \<Rightarrow> nat \<Rightarrow> nat \<Rightarrow> 'c session \<Rightarrow> bool" where
  "evictionPending sid ref due s =
     (streamSid s = Some sid
      \<and> fst ` {t \<in> set (timers s). snd t = EvictConversation} \<subseteq> {due}
      \<and> (if clock s < due
          then (due, EvictConversation) \<in> set (timers s) \<and> activeConversations s sid = Some ref
          else activeConversations s sid = None))"

text \<open>A session whose stream \<open>CA1\<close> has started over the tracker above, with item \<open>I1\<close>
  created and the media clock at 1000 ms.\<close>

definition startedSession :: "tracker session" where
  "startedSession =
     fst (run trackerDeps (initialSession emptyTracker 0 Map.empty 0)
            [AiOpen, startEvent ''CA1'', itemCreatedEvent ''I1'',
             mediaEvent \<lparr> timestamp = 1000, payload = ''a'' \<rparr>])"

section \<open>Properties of the handlers\<close>

subsection \<open>Evaluation and the shape of each handler\<close>

lemmas eval_defs =
  step_def onConnectionMessage_def onOpenAiMessage_def onOpenAiOpen_def onOpenAiClose_def
  onOpenAiError_def onConnectionClose_def forwardAudioDelta_def sendMark_def
  handleSpeechStartedEvent_def initialSession_def trackerDeps_def trackerProcessEvent_def
  updateItem_def emptyTracker_def startEvent_def mediaEvent_def itemCreatedEvent_def
  audioDeltaEvent_def speechStartedEvent_def truthyString_def truthyNumber_def
  LOG_EVENT_TYPES_def Let_def

lemma startedSession_eval:
  "latestMediaTimestamp startedSession = 1000"
  "responseStartTimestampTwilio startedSession = None"
  "streamSid startedSession = Some ''CA1''"
  "itemLookup (conversation startedSession) ''I1'' =
     Some \<lparr> item_id = ''I1'', item_role = Assistant, item_kind = ''message'',
            item_status = InProgress, item_text = [], item_transcript = [],
            item_has_audio = False \<rparr>"
  by (simp_all add: startedSession_def eval_defs)

lemma forwardAudioDelta_eq:
  "forwardAudioDelta D s d item =
     (s\<lparr> responseStartTimestampTwilio :=
           (if truthyNumber (responseStartTimestampTwilio s) then responseStartTimestampTwilio s
            else Some (latestMediaTimestamp s)),
         lastAssistantItem :=
           (case item of None \<Rightarrow> lastAssistantItem s | Some it \<Rightarrow> Some (item_id it)),
         markQueue :=
           (if truthyString (streamSid s) then markQueue s @ [''responsePart''] else markQueue s) \<rparr>,
      TelSend (MediaFrame (streamSid s) (reencodeBase64 D d))
        # (if truthyString (streamSid s)
           then [TelSend (MarkFrame (streamSid s) ''responsePart'')] else []))"
  by (simp add: forwardAudioDelta_def sendMark_def Let_def split: option.splits)

lemma truncatesSent_append [simp]:
  "truncatesSent (xs @ ys) = truncatesSent xs @ truncatesSent ys"
  by (simp add: truncatesSent_def List.map_filter_def)

lemma truncatesSent_Nil [simp]: "truncatesSent [] = []"
  by (simp add: truncatesSent_def map_filter_simps)

lemma truncatesSent_Cons:
  "truncatesSent (e # es) =
     (case truncateOf e of None \<Rightarrow> truncatesSent es | Some t \<Rightarrow> t # truncatesSent es)"
  by (simp add: truncatesSent_def map_filter_simps split: option.splits)

lemma runTimers_state: "\<exists>reg. fst (runTimers s as) = s\<lparr> activeConversations := reg \<rparr>"
proof (induction as arbitrary: s)
  case Nil
  have "s = s\<lparr> activeConversations := activeConversations s \<rparr>" by simp
  then show ?case by (metis fst_conv runTimers.simps(1))
next
  case (Cons a as)
  obtain reg1 where r1: "fst (runTimer s a) = s\<lparr> activeConversations := reg1 \<rparr>"
  proof (cases a)
    case InitializeSession
    have "fst (runTimer s a) = s\<lparr> activeConversations := activeConversations s \<rparr>"
      using InitializeSession by (simp add: runTimer_def initializeSession_def)
    then show ?thesis using that by blast
  next
    case EvictConversation
    have "\<exists>reg. fst (runTimer s a) = s\<lparr> activeConversations := reg \<rparr>"
      using EvictConversation
      by (cases "streamSid s") (auto simp add: runTimer_def evictConversation_def intro: exI [of _ "activeConversations s"])
    then show ?thesis using that by blast
  qed
  from Cons.IH [of "fst (runTimer s a)"] obtain reg2
    where "fst (runTimers (fst (runTimer s a)) as) = (fst (runTimer s a))\<lparr> activeConversations := reg2 \<rparr>"
    by blast
  then have "fst (runTimers s (a # as)) = s\<lparr> activeConversations := reg2 \<rparr>"
    using r1 by (simp add: split_beta)
  then show ?case by blast
qed

lemma runTimers_truncates: "truncatesSent (snd (runTimers s as)) = []"
proof (induction as arbitrary: s)
  case Nil
  then show ?case by simp
next
  case (Cons a as)
  have "truncatesSent (snd (runTimer s a)) = []"
    by (cases a) (simp_all add: runTimer_def initializeSession_def evictConversation_def
        truncatesSent_Cons truncateOf_def split: option.splits)
  then show ?case
    using Cons.IH by (simp add: split_beta)
qed

lemma elapse_state:
  "\<exists>reg ts. fst (elapse s d) = s\<lparr> activeConversations := reg, clock := clock s + d, timers := ts \<rparr>"
proof -
  let ?s1 = "s\<lparr> clock := clock s + d, timers := filter (\<lambda>t. \<not> fst t \<le> clock s + d) (timers s) \<rparr>"
  obtain reg where "fst (elapse s d) = ?s1\<lparr> activeConversations := reg \<rparr>"
    using runTimers_state [of ?s1] by (auto simp add: elapse_def Let_def)
  then have "fst (elapse s d) = s\<lparr> activeConversations := reg, clock := clock s + d,
      timers := filter (\<lambda>t. \<not> fst t \<le> clock s + d) (timers s) \<rparr>"
    by simp
  then show ?thesis by blast
qed

lemma elapse_truncates: "truncatesSent (snd (elapse s d)) = []"
  by (simp add: elapse_def Let_def runTimers_truncates)

lemma onOpenAiMessage_delta:
  assumes "processEvent D (conversation s) r = (PeReturn item, c)"
    and "rtype r = ''response.audio.delta''" and "rdelta r = Some d" and "d \<noteq> []"
  shows "onOpenAiMessage D s (AiParsed r) = forwardAudioDelta D (s\<lparr> conversation := c \<rparr>) d item"
  using assms
  by (simp add: onOpenAiMessage_def LOG_EVENT_TYPES_def truthyString_def split_beta)

lemma onOpenAiMessage_speech:
  assumes "processEvent D (conversation s) r = (PeReturn item, c)"
    and "rtype r = ''input_audio_buffer.speech_started''"
  shows "onOpenAiMessage D s (AiParsed r) =
           (fst (handleSpeechStartedEvent (s\<lparr> conversation := c \<rparr>)),
            ConsoleLog ''Received event: input_audio_buffer.speech_started''
              # snd (handleSpeechStartedEvent (s\<lparr> conversation := c \<rparr>)))"
  using assms
  by (simp add: onOpenAiMessage_def LOG_EVENT_TYPES_def split_beta Let_def)

lemma onOpenAiMessage_other:
  assumes "processEvent D (conversation s) r = (res, c)"
    and "res = PeThrow \<or> (rtype r \<noteq> ''input_audio_buffer.speech_started''
           \<and> \<not> (rtype r = ''response.audio.delta'' \<and> truthyString (rdelta r)))"
  shows "onOpenAiMessage D s (AiParsed r) =
           (s\<lparr> conversation := c \<rparr>,
            if rtype r \<in> set LOG_EVENT_TYPES then [ConsoleLog (''Received event: '' @ rtype r)]
            else [])"
  using assms
  by (cases res) (auto simp add: onOpenAiMessage_def split_beta)

lemma truncatesSent_logged [simp]:
  "truncatesSent (ConsoleLog x # es) = truncatesSent es"
  "truncatesSent (ConsoleError x # es) = truncatesSent es"
  "truncatesSent (TelSend f # es) = truncatesSent es"
  "truncatesSent (AiCloseCall # es) = truncatesSent es"
  "truncatesSent (AiSend SessionUpdate # es) = truncatesSent es"
  "truncatesSent (AiSend (InputAudioBufferAppend p) # es) = truncatesSent es"
  "truncatesSent (AiSend (ConversationItemTruncate i k ms) # es) = (i, k, ms) # truncatesSent es"
  by (simp_all add: truncatesSent_Cons truncateOf_def)

lemma handleSpeechStartedEvent_ordered:
  assumes "timestampsOrdered s m"
  shows "timestampsOrdered (fst (handleSpeechStartedEvent s)) m"
    and "\<forall>t\<in>set (truncatesSent (snd (handleSpeechStartedEvent s))). 0 \<le> snd (snd t)"
  using assms
  by (auto simp add: handleSpeechStartedEvent_def timestampsOrdered_def Let_def
      split: option.splits)

lemma forwardAudioDelta_ordered:
  assumes "timestampsOrdered s m"
  shows "timestampsOrdered (fst (forwardAudioDelta D s d item)) m"
    and "truncatesSent (snd (forwardAudioDelta D s d item)) = []"
  using assms
  by (auto simp add: forwardAudioDelta_eq timestampsOrdered_def split: option.splits)

lemma timestampsOrdered_conversation [simp]:
  "timestampsOrdered (s\<lparr> conversation := c \<rparr>) m = timestampsOrdered s m"
  by (simp add: timestampsOrdered_def split: option.splits)

lemma onOpenAiMessage_ordered:
  assumes "timestampsOrdered s m"
  shows "timestampsOrdered (fst (onOpenAiMessage D s msg)) m
       \<and> (\<forall>t\<in>set (truncatesSent (snd (onOpenAiMessage D s msg))). 0 \<le> snd (snd t))"
proof (cases msg)
  case AiUnparsable
  then show ?thesis using assms by (simp add: onOpenAiMessage_def)
next
  case (AiParsed r)
  obtain res c where pe: "processEvent D (conversation s) r = (res, c)"
    by fastforce
  have s1: "timestampsOrdered (s\<lparr> conversation := c \<rparr>) m"
    using assms by simp
  consider (delta) item d where "res = PeReturn item" "rtype r = ''response.audio.delta''"
      "rdelta r = Some d" "d \<noteq> []"
    | (speech) item where "res = PeReturn item" "rtype r = ''input_audio_buffer.speech_started''"
    | (other) "res = PeThrow \<or> (rtype r \<noteq> ''input_audio_buffer.speech_started''
           \<and> \<not> (rtype r = ''response.audio.delta'' \<and> truthyString (rdelta r)))"
    by (cases res; cases "rdelta r") (auto simp add: truthyString_def)
  then show ?thesis
  proof cases
    case delta
    then show ?thesis
      using pe AiParsed forwardAudioDelta_ordered [OF s1]
      by (simp add: onOpenAiMessage_delta)
  next
    case speech
    then show ?thesis
      using pe AiParsed handleSpeechStartedEvent_ordered [OF s1]
      by (simp add: onOpenAiMessage_speech)
  next
    case other
    then show ?thesis
      using pe AiParsed s1 by (simp add: onOpenAiMessage_other)
  qed
qed

lemma onConnectionMessage_media:
  assumes "event data = ''media''" and "media data = Some m"
  shows "onConnectionMessage s (TelParsed data) =
           (s\<lparr> latestMediaTimestamp := timestamp m \<rparr>,
            if openAiWsReadyState s = OPEN then [AiSend (InputAudioBufferAppend (payload m))]
            else [])"
    and "mediaTimestampOf (TelMessage (TelParsed data)) = Some (timestamp m)"
    and "\<not> isStartFrame (TelMessage (TelParsed data))"
  using assms by (simp_all add: onConnectionMessage_def mediaTimestampOf_def isStartFrame_def)

lemma onConnectionMessage_start:
  assumes "event data = ''start''" and "start data = Some st"
  shows "onConnectionMessage s (TelParsed data) =
           (s\<lparr> streamSid := Some (start_streamSid st),
               activeConversations :=
                 (activeConversations s)(start_streamSid st \<mapsto> conversationRef s),
               responseStartTimestampTwilio := None,
               latestMediaTimestamp := 0 \<rparr>,
            [ConsoleLog ''Incoming stream has started''])"
    and "mediaTimestampOf (TelMessage (TelParsed data)) = None"
    and "isStartFrame (TelMessage (TelParsed data))"
  using assms by (simp_all add: onConnectionMessage_def mediaTimestampOf_def isStartFrame_def)

lemma onConnectionMessage_mark:
  assumes "event data = ''mark''"
  shows "onConnectionMessage s (TelParsed data) =
           (s\<lparr> markQueue := (if markQueue s = [] then [] else tl (markQueue s)) \<rparr>, [])"
    and "mediaTimestampOf (TelMessage (TelParsed data)) = None"
    and "\<not> isStartFrame (TelMessage (TelParsed data))"
  using assms by (simp_all add: onConnectionMessage_def mediaTimestampOf_def isStartFrame_def)

lemma onConnectionMessage_cases:
  obtains
    (media) data m where "msg = TelParsed data" "event data = ''media''" "media data = Some m"
  | (start) data st where "msg = TelParsed data" "event data = ''start''" "start data = Some st"
  | (mark) data where "msg = TelParsed data" "event data = ''mark''"
  | (other) x where "onConnectionMessage s msg = (s, [x])"
      "x = ConsoleError ''Error parsing message:'' \<or> x = ConsoleLog ''Received non-media event:''"
      "mediaTimestampOf (TelMessage msg) = None" "\<not> isStartFrame (TelMessage msg)"
proof (cases msg)
  case TelUnparsable
  then show ?thesis
    using other [of "ConsoleError ''Error parsing message:''"]
    by (simp add: onConnectionMessage_def mediaTimestampOf_def isStartFrame_def)
next
  case (TelParsed data)
  show ?thesis
  proof (cases "event data = ''media''")
    case True
    show ?thesis
    proof (cases "media data")
      case None
      then show ?thesis
        using True TelParsed other [of "ConsoleError ''Error parsing message:''"]
        by (simp add: onConnectionMessage_def mediaTimestampOf_def isStartFrame_def)
    next
      case (Some m)
      then show ?thesis using True TelParsed media by blast
    qed
  next
    case notMedia: False
    show ?thesis
    proof (cases "event data = ''start''")
      case True
      show ?thesis
      proof (cases "start data")
        case None
        then show ?thesis
          using True TelParsed other [of "ConsoleError ''Error parsing message:''"]
          by (simp add: onConnectionMessage_def mediaTimestampOf_def isStartFrame_def)
      next
        case (Some st)
        then show ?thesis using True TelParsed start by blast
      qed
    next
      case notStart: False
      show ?thesis
      proof (cases "event data = ''mark''")
        case True
        then show ?thesis using TelParsed mark by blast
      next
        case False
        then show ?thesis
          using notMedia notStart TelParsed other [of "ConsoleLog ''Received non-media event:''"]
          by (simp add: onConnectionMessage_def mediaTimestampOf_def isStartFrame_def)
      qed
    qed
  qed
qed

subsection \<open>The response start never lies ahead of the media clock\<close>

lemma onConnectionMessage_ordered:
  assumes "timestampsOrdered s m"
    and "case mediaTimestampOf (TelMessage msg) of None \<Rightarrow> True | Some t \<Rightarrow> m \<le> t"
  shows "timestampsOrdered (fst (onConnectionMessage s msg))
           (case mediaTimestampOf (TelMessage msg) of None \<Rightarrow> m | Some t \<Rightarrow> t)
       \<and> truncatesSent (snd (onConnectionMessage s msg)) = []"
proof (cases rule: onConnectionMessage_cases [where msg = msg and s = s])
  case (media data m')
  then show ?thesis
    using assms
    by (simp add: onConnectionMessage_media timestampsOrdered_def split: option.splits)
next
  case (start data st)
  then show ?thesis
    using assms
    by (simp add: onConnectionMessage_start timestampsOrdered_def split: option.splits)
next
  case (mark data)
  then show ?thesis
    using assms
    by (simp add: onConnectionMessage_mark timestampsOrdered_def split: option.splits)
next
  case (other x)
  then show ?thesis
    using assms by auto
qed

lemma elapse_ordered:
  assumes "timestampsOrdered s m"
  shows "timestampsOrdered (fst (elapse s d)) m"
proof -
  obtain reg ts where "fst (elapse s d) = s\<lparr> activeConversations := reg, clock := clock s + d, timers := ts \<rparr>"
    using elapse_state by blast
  then show ?thesis
    using assms by (simp add: timestampsOrdered_def split: option.splits)
qed

lemma timestampsOrdered_frame [simp]:
  "timestampsOrdered (s\<lparr> connectionReadyState := x \<rparr>) m = timestampsOrdered s m"
  "timestampsOrdered (s\<lparr> openAiWsReadyState := x \<rparr>) m = timestampsOrdered s m"
  "timestampsOrdered (s\<lparr> timers := y \<rparr>) m = timestampsOrdered s m"
  by (simp_all add: timestampsOrdered_def split: option.splits)

lemma step_ordered:
  assumes "timestampsOrdered s m"
    and "case mediaTimestampOf ev of None \<Rightarrow> True | Some t \<Rightarrow> m \<le> t"
  shows "timestampsOrdered (fst (step D s ev))
           (case mediaTimestampOf ev of None \<Rightarrow> m | Some t \<Rightarrow> t)
       \<and> (\<forall>t\<in>set (truncatesSent (snd (step D s ev))). 0 \<le> snd (snd t))"
proof (cases ev)
  case (TelMessage msg)
  then show ?thesis
    using onConnectionMessage_ordered [OF assms(1), of msg] assms(2)
    by (simp add: step_def)
next
  case TelClose
  then show ?thesis
    using assms(1) by (simp add: step_def mediaTimestampOf_def onConnectionClose_def)
next
  case AiOpen
  then show ?thesis
    using assms(1) by (simp add: step_def mediaTimestampOf_def onOpenAiOpen_def)
next
  case (AiMessage msg)
  then show ?thesis
    using onOpenAiMessage_ordered [OF assms(1), of D msg]
    by (simp add: step_def mediaTimestampOf_def)
next
  case AiClose
  then show ?thesis
    using assms(1) by (simp add: step_def mediaTimestampOf_def onOpenAiClose_def)
next
  case AiError
  then show ?thesis
    using assms(1) by (simp add: step_def mediaTimestampOf_def onOpenAiError_def)
next
  case (Elapse d)
  then show ?thesis
    using elapse_ordered [OF assms(1), of d]
    by (simp add: step_def mediaTimestampOf_def elapse_truncates)
qed

lemma mediaTimestamps_Cons:
  "mediaTimestamps (ev # evs) =
     (case mediaTimestampOf ev of None \<Rightarrow> mediaTimestamps evs | Some t \<Rightarrow> t # mediaTimestamps evs)"
  by (simp add: mediaTimestamps_def map_filter_simps split: option.splits)

lemma run_ordered:
  assumes "timestampsOrdered s m" and "sorted (m # mediaTimestamps evs)"
  shows "\<forall>t\<in>set (truncatesSent (snd (run D s evs))). 0 \<le> snd (snd t)"
  using assms
proof (induction evs arbitrary: s m)
  case Nil
  then show ?case by simp
next
  case (Cons ev evs)
  let ?m = "case mediaTimestampOf ev of None \<Rightarrow> m | Some t \<Rightarrow> t"
  have bound: "case mediaTimestampOf ev of None \<Rightarrow> True | Some t \<Rightarrow> m \<le> t"
    using Cons.prems(2) by (simp add: mediaTimestamps_Cons split: option.splits)
  have rest: "sorted (?m # mediaTimestamps evs)"
    using Cons.prems(2) by (simp add: mediaTimestamps_Cons split: option.splits)
  note st = step_ordered [OF Cons.prems(1) bound, of D]
  from Cons.IH [OF st [THEN conjunct1] rest] st [THEN conjunct2]
  show ?case
    by (auto simp add: split_beta)
qed

lemma handleSpeechStartedEvent_noop:
  "markQueue s = [] \<or> responseStartTimestampTwilio s = None \<Longrightarrow> handleSpeechStartedEvent s = (s, [])"
  by (auto simp add: handleSpeechStartedEvent_def split: option.splits)

lemma handleSpeechStartedEvent_fires:
  "markQueue s \<noteq> [] \<Longrightarrow> responseStartTimestampTwilio s = Some r \<Longrightarrow>
   handleSpeechStartedEvent s =
     (s\<lparr> markQueue := [], lastAssistantItem := None, responseStartTimestampTwilio := None \<rparr>,
      (case lastAssistantItem s of
         None \<Rightarrow> []
       | Some i \<Rightarrow> if i \<noteq> [] then [AiSend (ConversationItemTruncate i 0 (latestMediaTimestamp s - r))]
                   else [])
        @ [TelSend (ClearFrame (streamSid s))])"
  by (simp add: handleSpeechStartedEvent_def Let_def)

lemma initialSession_ordered: "timestampsOrdered (initialSession c ref reg now) 0"
  by (simp add: timestampsOrdered_def initialSession_def)

lemma scenario_truncate:
  assumes "latestMediaTimestamp s = t0" and "responseStartTimestampTwilio s = None"
    and "truthyString (streamSid s)"
    and "rtype dl = ''response.audio.delta''" and "rdelta dl = Some d" and "d \<noteq> []"
    and "processEvent D (conversation s) dl = (PeReturn (Some it), c1)"
    and "item_id it \<noteq> []"
    and "rtype sp = ''input_audio_buffer.speech_started''"
    and "processEvent D c1 sp = (PeReturn x, c2)"
  shows "truncatesSent (snd (run D s [AiMessage (AiParsed dl),
            mediaEvent \<lparr> timestamp = t1, payload = p \<rparr>, AiMessage (AiParsed sp)]))
         = [(item_id it, 0, t1 - t0)]"
proof -
  let ?s1 = "fst (forwardAudioDelta D (s\<lparr> conversation := c1 \<rparr>) d (Some it))"
  have st1: "step D s (AiMessage (AiParsed dl)) = forwardAudioDelta D (s\<lparr> conversation := c1 \<rparr>) d (Some it)"
    using assms by (simp add: step_def onOpenAiMessage_delta)
  have f1: "responseStartTimestampTwilio ?s1 = Some t0" "markQueue ?s1 \<noteq> []"
    "lastAssistantItem ?s1 = Some (item_id it)" "conversation ?s1 = c1"
    "latestMediaTimestamp ?s1 = t0"
    using assms by (simp_all add: forwardAudioDelta_eq truthyNumber_def)
  let ?s2 = "?s1\<lparr> latestMediaTimestamp := t1 \<rparr>"
  have st2: "fst (step D ?s1 (mediaEvent \<lparr> timestamp = t1, payload = p \<rparr>)) = ?s2"
    "truncatesSent (snd (step D ?s1 (mediaEvent \<lparr> timestamp = t1, payload = p \<rparr>))) = []"
    by (simp_all add: step_def mediaEvent_def onConnectionMessage_media)
  have pe: "processEvent D (conversation ?s2) sp = (PeReturn x, c2)"
    using assms f1 by simp
  have fires: "truncatesSent (snd (handleSpeechStartedEvent (?s2\<lparr> conversation := c2 \<rparr>)))
      = [(item_id it, 0, t1 - t0)]"
    using f1 assms(8)
    by (subst handleSpeechStartedEvent_fires [where r = t0]) simp_all
  have st3: "truncatesSent (snd (step D ?s2 (AiMessage (AiParsed sp)))) = [(item_id it, 0, t1 - t0)]"
    using onOpenAiMessage_speech [OF pe assms(9)] fires by (simp add: step_def)
  have "truncatesSent (snd (step D s (AiMessage (AiParsed dl)))) = []"
    using st1 by (simp add: forwardAudioDelta_eq)
  then show ?thesis
    using st1 st2 st3 by (simp add: split_beta)
qed


lemma run_append:
  "run D s (xs @ ys) =
     (let (s1, e1) = run D s xs; (s2, e2) = run D s1 ys in (s2, e1 @ e2))"
  by (induction xs arbitrary: s) (simp_all add: split_beta)

lemma run_snoc_media:
  "latestMediaTimestamp (fst (run D s (evs @ [mediaEvent m]))) = timestamp m"
  by (simp add: run_append step_def mediaEvent_def onConnectionMessage_media split_beta)

subsection \<open>Marks and the mark queue\<close>

lemma isMarkFrame_simps [simp]:
  "isMarkFrame (TelSend (MarkFrame sid n))"
  "\<not> isMarkFrame (TelSend (MediaFrame sid p))"
  "\<not> isMarkFrame (TelSend (ClearFrame sid))"
  "\<not> isMarkFrame (AiSend c)"
  "\<not> isMarkFrame AiCloseCall"
  "\<not> isMarkFrame (ConsoleLog x)"
  "\<not> isMarkFrame (ConsoleError x)"
  by (simp_all add: isMarkFrame_def)

lemma runTimers_marks: "filter isMarkFrame (snd (runTimers s as)) = []"
proof (induction as arbitrary: s)
  case Nil
  then show ?case by simp
next
  case (Cons a as)
  have "filter isMarkFrame (snd (runTimer s a)) = []"
    by (cases a) (simp_all add: runTimer_def initializeSession_def evictConversation_def
        split: option.splits)
  then show ?case
    using Cons.IH by (simp add: split_beta)
qed

lemma elapse_marks: "filter isMarkFrame (snd (elapse s d)) = []"
  by (simp add: elapse_def Let_def runTimers_marks)

lemma handleSpeechStartedEvent_marks:
  "filter isMarkFrame (snd (handleSpeechStartedEvent s)) = []"
  "length (markQueue (fst (handleSpeechStartedEvent s))) \<le> length (markQueue s)"
  "streamSid (fst (handleSpeechStartedEvent s)) = streamSid s"
  by (simp_all add: handleSpeechStartedEvent_def Let_def split: option.splits)

text \<open>Each step either sends one mark frame and pushes one token, which needs a truthy
  \<^verbatim>\<open>streamSid\<close>, or sends no mark frame and leaves the queue no longer than it was.\<close>

lemma step_mark:
  "(filter isMarkFrame (snd (step D s ev)) = [TelSend (MarkFrame (streamSid s) ''responsePart'')]
      \<and> truthyString (streamSid s)
      \<and> markQueue (fst (step D s ev)) = markQueue s @ [''responsePart''])
   \<or> (filter isMarkFrame (snd (step D s ev)) = []
      \<and> length (markQueue (fst (step D s ev))) \<le> length (markQueue s))"
proof (cases ev)
  case (TelMessage msg)
  show ?thesis
  proof (cases rule: onConnectionMessage_cases [where msg = msg and s = s])
    case (media data m)
    then show ?thesis using TelMessage by (simp add: step_def onConnectionMessage_media)
  next
    case (start data st)
    then show ?thesis using TelMessage by (simp add: step_def onConnectionMessage_start)
  next
    case (mark data)
    then show ?thesis using TelMessage by (simp add: step_def onConnectionMessage_mark)
  next
    case (other x)
    then show ?thesis using TelMessage by (auto simp add: step_def)
  qed
next
  case TelClose
  then show ?thesis by (simp add: step_def onConnectionClose_def)
next
  case AiOpen
  then show ?thesis by (simp add: step_def onOpenAiOpen_def)
next
  case (AiMessage msg)
  show ?thesis
  proof (cases msg)
    case AiUnparsable
    then show ?thesis using AiMessage by (simp add: step_def onOpenAiMessage_def)
  next
    case (AiParsed r)
    obtain res c where pe: "processEvent D (conversation s) r = (res, c)"
      by fastforce
    consider (delta) item d where "res = PeReturn item" "rtype r = ''response.audio.delta''"
        "rdelta r = Some d" "d \<noteq> []"
      | (speech) item where "res = PeReturn item" "rtype r = ''input_audio_buffer.speech_started''"
      | (other) "res = PeThrow \<or> (rtype r \<noteq> ''input_audio_buffer.speech_started''
             \<and> \<not> (rtype r = ''response.audio.delta'' \<and> truthyString (rdelta r)))"
      by (cases res; cases "rdelta r") (auto simp add: truthyString_def)
    then show ?thesis
    proof cases
      case delta
      then show ?thesis
        using pe AiMessage AiParsed
        by (simp add: step_def onOpenAiMessage_delta forwardAudioDelta_eq)
    next
      case speech
      then show ?thesis
        using pe AiMessage AiParsed
          handleSpeechStartedEvent_marks [of "s\<lparr> conversation := c \<rparr>"]
        by (simp add: step_def onOpenAiMessage_speech)
    next
      case other
      then show ?thesis
        using pe AiMessage AiParsed by (simp add: step_def onOpenAiMessage_other)
    qed
  qed
next
  case AiClose
  then show ?thesis by (simp add: step_def onOpenAiClose_def)
next
  case AiError
  then show ?thesis by (simp add: step_def onOpenAiError_def)
next
  case (Elapse d)
  obtain reg ts where
    "fst (elapse s d) = s\<lparr> activeConversations := reg, clock := clock s + d, timers := ts \<rparr>"
    using elapse_state by blast
  then show ?thesis
    using Elapse by (simp add: step_def elapse_marks)
qed

lemma step_streamSid:
  assumes "\<not> isStartFrame ev"
  shows "streamSid (fst (step D s ev)) = streamSid s"
proof (cases ev)
  case (TelMessage msg)
  show ?thesis
  proof (cases rule: onConnectionMessage_cases [where msg = msg and s = s])
    case (media data m)
    then show ?thesis using TelMessage by (simp add: step_def onConnectionMessage_media)
  next
    case (start data st)
    then show ?thesis using TelMessage assms onConnectionMessage_start(3) by blast
  next
    case (mark data)
    then show ?thesis using TelMessage by (simp add: step_def onConnectionMessage_mark)
  next
    case (other x)
    then show ?thesis using TelMessage by (auto simp add: step_def)
  qed
next
  case TelClose
  then show ?thesis by (simp add: step_def onConnectionClose_def)
next
  case AiOpen
  then show ?thesis by (simp add: step_def onOpenAiOpen_def)
next
  case (AiMessage msg)
  show ?thesis
  proof (cases msg)
    case AiUnparsable
    then show ?thesis using AiMessage by (simp add: step_def onOpenAiMessage_def)
  next
    case (AiParsed r)
    obtain res c where pe: "processEvent D (conversation s) r = (res, c)"
      by fastforce
    consider (delta) item d where "res = PeReturn item" "rtype r = ''response.audio.delta''"
        "rdelta r = Some d" "d \<noteq> []"
      | (speech) item where "res = PeReturn item" "rtype r = ''input_audio_buffer.speech_started''"
      | (other) "res = PeThrow \<or> (rtype r \<noteq> ''input_audio_buffer.speech_started''
             \<and> \<not> (rtype r = ''response.audio.delta'' \<and> truthyString (rdelta r)))"
      by (cases res; cases "rdelta r") (auto simp add: truthyString_def)
    then show ?thesis
    proof cases
      case delta
      then show ?thesis
        using pe AiMessage AiParsed
        by (simp add: step_def onOpenAiMessage_delta forwardAudioDelta_eq)
    next
      case speech
      then show ?thesis
        using pe AiMessage AiParsed
          handleSpeechStartedEvent_marks [of "s\<lparr> conversation := c \<rparr>"]
        by (simp add: step_def onOpenAiMessage_speech)
    next
      case other
      then show ?thesis
        using pe AiMessage AiParsed by (simp add: step_def onOpenAiMessage_other)
    qed
  qed
next
  case AiClose
  then show ?thesis by (simp add: step_def onOpenAiClose_def)
next
  case AiError
  then show ?thesis by (simp add: step_def onOpenAiError_def)
next
  case (Elapse d)
  obtain reg ts where
    "fst (elapse s d) = s\<lparr> activeConversations := reg, clock := clock s + d, timers := ts \<rparr>"
    using elapse_state by blast
  then show ?thesis
    using Elapse by (simp add: step_def)
qed

lemma run_without_start:
  assumes "\<forall>ev\<in>set evs. \<not> isStartFrame ev" and "streamSid s = None" and "markQueue s = []"
  shows "streamSid (fst (run D s evs)) = None \<and> markQueue (fst (run D s evs)) = []
       \<and> filter isMarkFrame (snd (run D s evs)) = []"
  using assms
proof (induction evs arbitrary: s)
  case Nil
  then show ?case by simp
next
  case (Cons ev evs)
  have sid: "streamSid (fst (step D s ev)) = None"
    using Cons.prems step_streamSid [of ev D s] by simp
  have "\<not> truthyString (streamSid s)"
    using Cons.prems by (simp add: truthyString_def)
  then have mk: "filter isMarkFrame (snd (step D s ev)) = []" "markQueue (fst (step D s ev)) = []"
    using step_mark [of D s ev] Cons.prems by auto
  from Cons.IH [OF _ sid mk(2)] Cons.prems(1) mk(1)
  show ?case by (simp add: split_beta)
qed

subsection \<open>The registry and the eviction timer\<close>

lemma runTimers_registry:
  assumes "streamSid s = Some sid" and "sid \<noteq> []"
  shows "fst (runTimers s as) =
           (if EvictConversation \<in> set as
            then s\<lparr> activeConversations := (activeConversations s)(sid := None) \<rparr> else s)"
  using assms
proof (induction as arbitrary: s)
  case Nil
  then show ?case by simp
next
  case (Cons a as)
  show ?case
  proof (cases a)
    case InitializeSession
    then have "fst (runTimer s a) = s"
      by (simp add: runTimer_def initializeSession_def)
    then show ?thesis
      using Cons InitializeSession by (simp add: split_beta)
  next
    case EvictConversation
    let ?s1 = "s\<lparr> activeConversations := (activeConversations s)(sid := None) \<rparr>"
    have s1: "fst (runTimer s a) = ?s1"
      using Cons.prems EvictConversation by (simp add: runTimer_def evictConversation_def)
    have "fst (runTimers ?s1 as) = ?s1"
      using Cons.IH [of ?s1] Cons.prems by simp
    then show ?thesis
      using s1 EvictConversation by (simp add: split_beta)
  qed
qed

lemma elapse_registry:
  assumes "streamSid s = Some sid" and "sid \<noteq> []"
  shows "(\<exists>t\<in>set (timers s). fst t \<le> clock s + d \<and> snd t = EvictConversation) \<Longrightarrow>
           fst (elapse s d) =
             s\<lparr> clock := clock s + d,
                 timers := filter (\<lambda>t. \<not> fst t \<le> clock s + d) (timers s),
                 activeConversations := (activeConversations s)(sid := None) \<rparr>"
    and "\<not> (\<exists>t\<in>set (timers s). fst t \<le> clock s + d \<and> snd t = EvictConversation) \<Longrightarrow>
           fst (elapse s d) =
             s\<lparr> clock := clock s + d,
                 timers := filter (\<lambda>t. \<not> fst t \<le> clock s + d) (timers s) \<rparr>"
proof -
  let ?s1 = "s\<lparr> clock := clock s + d, timers := filter (\<lambda>t. \<not> fst t \<le> clock s + d) (timers s) \<rparr>"
  let ?due = "map snd (sort_key fst (filter (\<lambda>t. fst t \<le> clock s + d) (timers s)))"
  have due: "(EvictConversation \<in> set ?due)
      = (\<exists>t\<in>set (timers s). fst t \<le> clock s + d \<and> snd t = EvictConversation)"
    by (force simp add: image_iff)
  have el: "fst (elapse s d) = fst (runTimers ?s1 ?due)"
    by (simp add: elapse_def Let_def)
  have rt: "fst (runTimers ?s1 ?due) =
      (if EvictConversation \<in> set ?due
       then ?s1\<lparr> activeConversations := (activeConversations ?s1)(sid := None) \<rparr> else ?s1)"
    using assms by (intro runTimers_registry) simp_all
  show "fst (elapse s d) =
             s\<lparr> clock := clock s + d,
                 timers := filter (\<lambda>t. \<not> fst t \<le> clock s + d) (timers s),
                 activeConversations := (activeConversations s)(sid := None) \<rparr>"
    if "\<exists>t\<in>set (timers s). fst t \<le> clock s + d \<and> snd t = EvictConversation"
  proof -
    from that have "EvictConversation \<in> set ?due" using due by blast
    then show ?thesis unfolding el rt by simp
  qed
  show "fst (elapse s d) =
             s\<lparr> clock := clock s + d,
                 timers := filter (\<lambda>t. \<not> fst t \<le> clock s + d) (timers s) \<rparr>"
    if "\<not> (\<exists>t\<in>set (timers s). fst t \<le> clock s + d \<and> snd t = EvictConversation)"
  proof -
    from that have "EvictConversation \<notin> set ?due" using due by blast
    then show ?thesis unfolding el rt by simp
  qed
qed

text \<open>The AI message handler and a telephony message other than a start frame leave the
  stream id, the registry, the timers and the clock alone.\<close>

lemma handleSpeechStartedEvent_frame:
  "streamSid (fst (handleSpeechStartedEvent s)) = streamSid s"
  "activeConversations (fst (handleSpeechStartedEvent s)) = activeConversations s"
  "timers (fst (handleSpeechStartedEvent s)) = timers s"
  "clock (fst (handleSpeechStartedEvent s)) = clock s"
  "conversationRef (fst (handleSpeechStartedEvent s)) = conversationRef s"
  by (simp_all add: handleSpeechStartedEvent_def Let_def split: option.splits)

lemma onOpenAiMessage_frame:
  "streamSid (fst (onOpenAiMessage D s msg)) = streamSid s
   \<and> activeConversations (fst (onOpenAiMessage D s msg)) = activeConversations s
   \<and> timers (fst (onOpenAiMessage D s msg)) = timers s
   \<and> clock (fst (onOpenAiMessage D s msg)) = clock s
   \<and> conversationRef (fst (onOpenAiMessage D s msg)) = conversationRef s"
proof (cases msg)
  case AiUnparsable
  then show ?thesis by (simp add: onOpenAiMessage_def)
next
  case (AiParsed r)
  obtain res c where pe: "processEvent D (conversation s) r = (res, c)"
    by fastforce
  consider (delta) item d where "res = PeReturn item" "rtype r = ''response.audio.delta''"
      "rdelta r = Some d" "d \<noteq> []"
    | (speech) item where "res = PeReturn item" "rtype r = ''input_audio_buffer.speech_started''"
    | (other) "res = PeThrow \<or> (rtype r \<noteq> ''input_audio_buffer.speech_started''
           \<and> \<not> (rtype r = ''response.audio.delta'' \<and> truthyString (rdelta r)))"
    by (cases res; cases "rdelta r") (auto simp add: truthyString_def)
  then show ?thesis
  proof cases
    case delta
    then show ?thesis
      using pe AiParsed by (simp add: onOpenAiMessage_delta forwardAudioDelta_eq)
  next
    case speech
    then show ?thesis
      using pe AiParsed by (simp add: onOpenAiMessage_speech handleSpeechStartedEvent_frame)
  next
    case other
    then show ?thesis
      using pe AiParsed by (simp add: onOpenAiMessage_other)
  qed
qed

lemma onConnectionMessage_frame:
  assumes "\<not> isStartFrame (TelMessage msg)"
  shows "streamSid (fst (onConnectionMessage s msg)) = streamSid s
   \<and> activeConversations (fst (onConnectionMessage s msg)) = activeConversations s
   \<and> timers (fst (onConnectionMessage s msg)) = timers s
   \<and> clock (fst (onConnectionMessage s msg)) = clock s
   \<and> conversationRef (fst (onConnectionMessage s msg)) = conversationRef s"
proof (cases rule: onConnectionMessage_cases [where msg = msg and s = s])
  case (media data m)
  then show ?thesis by (simp add: onConnectionMessage_media)
next
  case (start data st)
  then show ?thesis using assms onConnectionMessage_start(3) by blast
next
  case (mark data)
  then show ?thesis by (simp add: onConnectionMessage_mark)
next
  case (other x)
  then show ?thesis by simp
qed

lemma step_registered:
  assumes "registered sid ref s" and "sid \<noteq> []" and "\<not> isStartFrame ev" and "ev \<noteq> TelClose"
  shows "registered sid ref (fst (step D s ev))"
proof (cases ev)
  case (TelMessage msg)
  then show ?thesis
    using assms onConnectionMessage_frame [of msg s]
    by (simp add: step_def registered_def)
next
  case TelClose
  then show ?thesis using assms by simp
next
  case AiOpen
  then show ?thesis
    using assms by (simp add: step_def onOpenAiOpen_def registered_def)
next
  case (AiMessage msg)
  then show ?thesis
    using assms onOpenAiMessage_frame [of D s msg]
    by (simp add: step_def registered_def)
next
  case AiClose
  then show ?thesis
    using assms by (simp add: step_def onOpenAiClose_def registered_def)
next
  case AiError
  then show ?thesis
    using assms by (simp add: step_def onOpenAiError_def registered_def)
next
  case (Elapse d)
  have none: "\<not> (\<exists>t\<in>set (timers s). fst t \<le> clock s + d \<and> snd t = EvictConversation)"
    using assms(1) by (auto simp add: registered_def image_iff)
  have sid: "streamSid s = Some sid"
    using assms(1) by (simp add: registered_def)
  show ?thesis
    using assms(1) Elapse elapse_registry(2) [OF sid assms(2) none]
    by (auto simp add: step_def registered_def image_iff)
qed

lemma run_registered:
  assumes "registered sid ref s" and "sid \<noteq> []"
    and "\<forall>ev\<in>set evs. \<not> isStartFrame ev \<and> ev \<noteq> TelClose"
  shows "registered sid ref (fst (run D s evs))"
  using assms
proof (induction evs arbitrary: s)
  case Nil
  then show ?case by simp
next
  case (Cons ev evs)
  have "registered sid ref (fst (step D s ev))"
    using Cons.prems by (intro step_registered) simp_all
  from Cons.IH [OF this] Cons.prems show ?case
    by (simp add: split_beta)
qed

lemma step_close_pending:
  assumes "registered sid ref s"
  shows "evictionPending sid ref (clock s + 300000) (fst (step D s TelClose))"
  using assms
  by (auto simp add: step_def onConnectionClose_def registered_def evictionPending_def
      image_iff split: if_splits)

lemma step_pending:
  assumes "evictionPending sid ref due s" and "sid \<noteq> []" and "\<not> isTelephonyEvent ev"
  shows "evictionPending sid ref due (fst (step D s ev))"
proof (cases ev)
  case (TelMessage msg)
  then show ?thesis using assms by (simp add: isTelephonyEvent_def)
next
  case TelClose
  then show ?thesis using assms by (simp add: isTelephonyEvent_def)
next
  case AiOpen
  then show ?thesis
    using assms(1) by (auto simp add: step_def onOpenAiOpen_def evictionPending_def)
next
  case (AiMessage msg)
  then show ?thesis
    using assms(1) onOpenAiMessage_frame [of D s msg]
    by (simp add: step_def evictionPending_def)
next
  case AiClose
  then show ?thesis
    using assms(1) by (simp add: step_def onOpenAiClose_def evictionPending_def)
next
  case AiError
  then show ?thesis
    using assms(1) by (simp add: step_def onOpenAiError_def evictionPending_def)
next
  case (Elapse d)
  have sid: "streamSid s = Some sid"
    using assms(1) by (simp add: evictionPending_def)
  have only: "fst t = due" if "t \<in> set (timers s)" "snd t = EvictConversation" for t
    using assms(1) that by (auto simp add: evictionPending_def)
  show ?thesis
  proof (cases "\<exists>t\<in>set (timers s). fst t \<le> clock s + d \<and> snd t = EvictConversation")
    case True
    then have "due \<le> clock s + d"
      using only by auto
    then show ?thesis
      using assms(1) Elapse elapse_registry(1) [OF sid assms(2) True]
      by (auto simp add: step_def evictionPending_def)
  next
    case False
    have late: "activeConversations s sid = None" if "due \<le> clock s + d"
    proof (cases "clock s < due")
      case True
      then have "(due, EvictConversation) \<in> set (timers s)"
        using assms(1) by (simp add: evictionPending_def)
      then show ?thesis using that False by force
    next
      case False
      then show ?thesis using assms(1) by (simp add: evictionPending_def)
    qed
    show ?thesis
      using assms(1) Elapse elapse_registry(2) [OF sid assms(2) False] late
      by (auto simp add: step_def evictionPending_def split: if_splits)
  qed
qed

lemma step_clock:
  "clock (fst (step D s ev)) = clock s + elapsed [ev]"
proof (cases ev)
  case (TelMessage msg)
  show ?thesis
  proof (cases rule: onConnectionMessage_cases [where msg = msg and s = s])
    case (media data m)
    then show ?thesis using TelMessage by (simp add: step_def onConnectionMessage_media)
  next
    case (start data st)
    then show ?thesis using TelMessage by (simp add: step_def onConnectionMessage_start)
  next
    case (mark data)
    then show ?thesis using TelMessage by (simp add: step_def onConnectionMessage_mark)
  next
    case (other x)
    then show ?thesis using TelMessage by (simp add: step_def)
  qed
next
  case TelClose
  then show ?thesis by (simp add: step_def onConnectionClose_def)
next
  case AiOpen
  then show ?thesis by (simp add: step_def onOpenAiOpen_def)
next
  case (AiMessage msg)
  then show ?thesis using onOpenAiMessage_frame [of D s msg] by (simp add: step_def)
next
  case AiClose
  then show ?thesis by (simp add: step_def onOpenAiClose_def)
next
  case AiError
  then show ?thesis by (simp add: step_def onOpenAiError_def)
next
  case (Elapse d)
  obtain reg ts where
    "fst (elapse s d) = s\<lparr> activeConversations := reg, clock := clock s + d, timers := ts \<rparr>"
    using elapse_state by blast
  then show ?thesis using Elapse by (simp add: step_def)
qed

lemma elapsed_Cons: "elapsed (ev # evs) = elapsed [ev] + elapsed evs"
  by (cases ev) simp_all

lemma run_pending:
  assumes "evictionPending sid ref due s" and "sid \<noteq> []"
    and "\<forall>ev\<in>set evs. \<not> isTelephonyEvent ev"
  shows "evictionPending sid ref due (fst (run D s evs))
       \<and> clock (fst (run D s evs)) = clock s + elapsed evs"
  using assms
proof (induction evs arbitrary: s)
  case Nil
  then show ?case by simp
next
  case (Cons ev evs)
  have "evictionPending sid ref due (fst (step D s ev))"
    using Cons.prems by (intro step_pending) simp_all
  from Cons.IH [OF this] Cons.prems show ?case
    using step_clock [of D s ev] elapsed_Cons [of ev evs] by (simp add: split_beta)
qed

section \<open>The claims\<close>

subsection \<open>C1: the truncation cutoff\<close>

text \<open>
  C1. When \<^verbatim>\<open>handleSpeechStartedEvent\<close> runs with a non-empty \<^verbatim>\<open>markQueue\<close> and a non-null
  \<^verbatim>\<open>responseStartTimestampTwilio\<close> \<open>r\<close>, every truncate command it sends names
  \<^verbatim>\<open>lastAssistantItem\<close>, with content index 0 and cutoff \<^verbatim>\<open>latestMediaTimestamp\<close> minus \<open>r\<close>, and
  it sends exactly that one when \<^verbatim>\<open>lastAssistantItem\<close> is a non-empty id. In every session that
  starts from the initial state and whose media timestamps never decrease from the initial clock
  value 0, whatever else happens on either link, no truncate command carries a negative cutoff.
  And when an audio delta for which the tracker reports item \<open>I1\<close> arrives in a started stream at
  clock 1000 with no response under way, then a media frame with timestamp 1800, then
  speech-started, the one truncate command sent names \<open>I1\<close> with cutoff 800.
\<close>

theorem truncate_cutoff_is_elapsed_and_nonnegative:
  "(markQueue s \<noteq> [] \<and> responseStartTimestampTwilio s = Some r \<longrightarrow>
      (\<forall>t\<in>set (truncatesSent (snd (handleSpeechStartedEvent s))).
          lastAssistantItem s = Some (fst t) \<and> snd t = (0, latestMediaTimestamp s - r))
      \<and> (\<forall>i. lastAssistantItem s = Some i \<and> i \<noteq> [] \<longrightarrow>
            truncatesSent (snd (handleSpeechStartedEvent s)) = [(i, 0, latestMediaTimestamp s - r)]))
   \<and> (sorted (0 # mediaTimestamps evs) \<longrightarrow>
        (\<forall>t\<in>set (truncatesSent (snd (run D (initialSession c ref reg now) evs))).
            0 \<le> snd (snd t)))
   \<and> (latestMediaTimestamp s0 = 1000 \<and> responseStartTimestampTwilio s0 = None
        \<and> truthyString (streamSid s0)
        \<and> rtype dl = ''response.audio.delta'' \<and> rdelta dl = Some d \<and> d \<noteq> []
        \<and> processEvent D (conversation s0) dl = (PeReturn (Some it), c1) \<and> item_id it = ''I1''
        \<and> rtype sp = ''input_audio_buffer.speech_started''
        \<and> processEvent D c1 sp = (PeReturn x, c2) \<longrightarrow>
        truncatesSent (snd (run D s0 [AiMessage (AiParsed dl),
            mediaEvent \<lparr> timestamp = 1800, payload = p \<rparr>, AiMessage (AiParsed sp)]))
          = [(''I1'', 0, 800)])"
proof (intro conjI impI)
  assume a: "markQueue s \<noteq> [] \<and> responseStartTimestampTwilio s = Some r"
  then show "\<forall>t\<in>set (truncatesSent (snd (handleSpeechStartedEvent s))).
          lastAssistantItem s = Some (fst t) \<and> snd t = (0, latestMediaTimestamp s - r)"
    by (auto simp add: handleSpeechStartedEvent_fires split: option.splits if_splits)
  from a show "\<forall>i. lastAssistantItem s = Some i \<and> i \<noteq> [] \<longrightarrow>
            truncatesSent (snd (handleSpeechStartedEvent s)) = [(i, 0, latestMediaTimestamp s - r)]"
    by (auto simp add: handleSpeechStartedEvent_fires)
next
  assume "sorted (0 # mediaTimestamps evs)"
  then show "\<forall>t\<in>set (truncatesSent (snd (run D (initialSession c ref reg now) evs))).
            0 \<le> snd (snd t)"
    by (rule run_ordered [OF initialSession_ordered])
next
  assume a: "latestMediaTimestamp s0 = 1000 \<and> responseStartTimestampTwilio s0 = None
        \<and> truthyString (streamSid s0)
        \<and> rtype dl = ''response.audio.delta'' \<and> rdelta dl = Some d \<and> d \<noteq> []
        \<and> processEvent D (conversation s0) dl = (PeReturn (Some it), c1) \<and> item_id it = ''I1''
        \<and> rtype sp = ''input_audio_buffer.speech_started''
        \<and> processEvent D c1 sp = (PeReturn x, c2)"
  then have "item_id it \<noteq> []" by simp
  with a show "truncatesSent (snd (run D s0 [AiMessage (AiParsed dl),
            mediaEvent \<lparr> timestamp = 1800, payload = p \<rparr>, AiMessage (AiParsed sp)]))
          = [(''I1'', 0, 800)]"
    using scenario_truncate [of s0 1000 dl d D it c1 sp x c2 1800 p] by simp
qed

text \<open>The three parts at concrete sessions: the tracker of the last subsection, the stream
  \<open>CA1\<close>, the item \<open>I1\<close>.\<close>

theorem truncate_cutoff_is_elapsed_and_nonnegative_witness:
  "markQueue respondingSession \<noteq> []
   \<and> responseStartTimestampTwilio respondingSession = Some 1000
   \<and> lastAssistantItem respondingSession = Some ''I1''
   \<and> truncatesSent (snd (handleSpeechStartedEvent respondingSession)) = [(''I1'', 0, 800)]
   \<and> latestMediaTimestamp startedSession = 1000
   \<and> responseStartTimestampTwilio startedSession = None
   \<and> truthyString (streamSid startedSession)
   \<and> truncatesSent (snd (run trackerDeps startedSession
         [audioDeltaEvent ''I1'' ''AAAA'', mediaEvent \<lparr> timestamp = 1800, payload = ''b'' \<rparr>,
          speechStartedEvent])) = [(''I1'', 0, 800)]
   \<and> sorted (0 # mediaTimestamps
         [startEvent ''CA1'', mediaEvent \<lparr> timestamp = 1000, payload = ''a'' \<rparr>,
          mediaEvent \<lparr> timestamp = 1800, payload = ''b'' \<rparr>])
   \<and> list_all (\<lambda>t. 0 \<le> snd (snd t))
         (truncatesSent (snd (run trackerDeps (initialSession emptyTracker 0 Map.empty 0)
            [startEvent ''CA1'', mediaEvent \<lparr> timestamp = 1000, payload = ''a'' \<rparr>,
             mediaEvent \<lparr> timestamp = 1800, payload = ''b'' \<rparr>])))"
  using truncate_cutoff_is_elapsed_and_nonnegative
     [of respondingSession 1000
      "[startEvent ''CA1'', mediaEvent \<lparr> timestamp = 1000, payload = ''a'' \<rparr>,
        mediaEvent \<lparr> timestamp = 1800, payload = ''b'' \<rparr>]"
      trackerDeps emptyTracker 0 Map.empty 0 startedSession
      "\<lparr> rtype = ''response.audio.delta'', rdelta = Some ''AAAA'',
         ritem_id = Some ''I1'', ritem = None \<rparr>" "''AAAA''"
      "\<lparr> item_id = ''I1'', item_role = Assistant, item_kind = ''message'',
            item_status = InProgress, item_text = [], item_transcript = [],
            item_has_audio = True \<rparr>"
      "snd (trackerProcessEvent (conversation startedSession)
         \<lparr> rtype = ''response.audio.delta'', rdelta = Some ''AAAA'',
           ritem_id = Some ''I1'', ritem = None \<rparr>)"
      "\<lparr> rtype = ''input_audio_buffer.speech_started'', rdelta = None,
         ritem_id = None, ritem = None \<rparr>"
      None
      "snd (trackerProcessEvent (conversation startedSession)
         \<lparr> rtype = ''response.audio.delta'', rdelta = Some ''AAAA'',
           ritem_id = Some ''I1'', ritem = None \<rparr>)"
      "''b''"]
  by (simp add: startedSession_eval respondingSession_def initialSession_def audioDeltaEvent_def
      speechStartedEvent_def trackerDeps_def trackerProcessEvent_def updateItem_def truthyString_def mediaTimestamps_Cons
      mediaTimestampOf_def startEvent_def mediaEvent_def mediaTimestamps_def map_filter_simps
      list_all_iff)

subsection \<open>C2: what an interruption leaves behind\<close>

text \<open>
  C2. After \<^verbatim>\<open>handleSpeechStartedEvent\<close> has run with a non-empty \<^verbatim>\<open>markQueue\<close> and a non-null
  \<^verbatim>\<open>responseStartTimestampTwilio\<close>, \<^verbatim>\<open>markQueue\<close> is empty, \<^verbatim>\<open>lastAssistantItem\<close> and
  \<^verbatim>\<open>responseStartTimestampTwilio\<close> are null, nothing else of the session has changed, and
  exactly one frame was sent to the telephony link: the clear frame carrying the session's
  \<^verbatim>\<open>streamSid\<close>, whatever \<^verbatim>\<open>lastAssistantItem\<close> was.
\<close>

theorem interruption_resets_state_and_sends_clear:
  assumes "markQueue s \<noteq> []" and "responseStartTimestampTwilio s = Some r"
  shows "fst (handleSpeechStartedEvent s)
           = s\<lparr> markQueue := [], lastAssistantItem := None,
                 responseStartTimestampTwilio := None \<rparr>
       \<and> markQueue (fst (handleSpeechStartedEvent s)) = []
       \<and> lastAssistantItem (fst (handleSpeechStartedEvent s)) = None
       \<and> responseStartTimestampTwilio (fst (handleSpeechStartedEvent s)) = None
       \<and> filter (\<lambda>e. case e of TelSend f \<Rightarrow> True | _ \<Rightarrow> False) (snd (handleSpeechStartedEvent s))
           = [TelSend (ClearFrame (streamSid s))]"
  using assms by (simp add: handleSpeechStartedEvent_fires split: option.splits)

theorem interruption_resets_state_and_sends_clear_witness:
  "markQueue respondingSession \<noteq> []
   \<and> responseStartTimestampTwilio respondingSession = Some 1000
   \<and> markQueue (fst (handleSpeechStartedEvent respondingSession)) = []
   \<and> lastAssistantItem (fst (handleSpeechStartedEvent respondingSession)) = None
   \<and> responseStartTimestampTwilio (fst (handleSpeechStartedEvent respondingSession)) = None
   \<and> filter (\<lambda>e. case e of TelSend f \<Rightarrow> True | _ \<Rightarrow> False)
        (snd (handleSpeechStartedEvent respondingSession)) = [TelSend (ClearFrame (Some ''CA1''))]"
  using interruption_resets_state_and_sends_clear [of respondingSession 1000]
  by (simp add: respondingSession_def initialSession_def)

subsection \<open>C3: speech-started with nothing to interrupt\<close>

text \<open>
  C3. When \<^verbatim>\<open>markQueue\<close> is empty or \<^verbatim>\<open>responseStartTimestampTwilio\<close> is null,
  \<^verbatim>\<open>handleSpeechStartedEvent\<close> changes nothing and sends nothing; and the whole handler of a
  speech-started message then leaves every variable of the session as it was, the
  conversation apart (which the tracker may update), and its only effect is the console line
  for the event: no truncate command and no clear frame. This holds whatever the tracker does
  with the event, also when it throws.
\<close>

theorem speech_started_without_response_is_noop:
  assumes "markQueue s = [] \<or> responseStartTimestampTwilio s = None"
  shows "handleSpeechStartedEvent s = (s, [])
       \<and> (rtype response = ''input_audio_buffer.speech_started'' \<longrightarrow>
            fst (onOpenAiMessage D s (AiParsed response))
              = s\<lparr> conversation := snd (processEvent D (conversation s) response) \<rparr>
            \<and> snd (onOpenAiMessage D s (AiParsed response))
              = [ConsoleLog ''Received event: input_audio_buffer.speech_started''])"
proof -
  have noop: "handleSpeechStartedEvent (s\<lparr> conversation := c \<rparr>) = (s\<lparr> conversation := c \<rparr>, [])" for c
    using assms by (intro handleSpeechStartedEvent_noop) simp
  have "onOpenAiMessage D s (AiParsed response)
          = (s\<lparr> conversation := snd (processEvent D (conversation s) response) \<rparr>,
             [ConsoleLog ''Received event: input_audio_buffer.speech_started''])"
    if t: "rtype response = ''input_audio_buffer.speech_started''"
  proof (cases "processEvent D (conversation s) response")
    case (Pair res c)
    show ?thesis
    proof (cases res)
      case PeThrow
      then show ?thesis
        using Pair t by (simp add: onOpenAiMessage_other LOG_EVENT_TYPES_def)
    next
      case (PeReturn item)
      then show ?thesis
        using Pair t noop [of c] by (simp add: onOpenAiMessage_speech)
    qed
  qed
  then show ?thesis
    using assms handleSpeechStartedEvent_noop [of s] by simp
qed

theorem speech_started_without_response_is_noop_witness:
  "responseStartTimestampTwilio startedSession = None
   \<and> handleSpeechStartedEvent startedSession = (startedSession, [])
   \<and> rtype \<lparr> rtype = ''input_audio_buffer.speech_started'', rdelta = None,
              ritem_id = None, ritem = None \<rparr> = ''input_audio_buffer.speech_started''
   \<and> snd (onOpenAiMessage trackerDeps startedSession
        (AiParsed \<lparr> rtype = ''input_audio_buffer.speech_started'', rdelta = None,
                    ritem_id = None, ritem = None \<rparr>))
       = [ConsoleLog ''Received event: input_audio_buffer.speech_started'']"
  using speech_started_without_response_is_noop [of startedSession
      "\<lparr> rtype = ''input_audio_buffer.speech_started'', rdelta = None,
         ritem_id = None, ritem = None \<rparr>" trackerDeps]
  by (simp add: startedSession_eval)

subsection \<open>C4: when the response start is taken\<close>

text \<open>What the delta branch does to \<^verbatim>\<open>responseStartTimestampTwilio\<close>: the test
  \<^verbatim>\<open>!responseStartTimestampTwilio\<close> takes 0 for unset, as it takes null.\<close>

lemma forwardAudioDelta_responseStart:
  "responseStartTimestampTwilio (fst (forwardAudioDelta D s d item)) =
     (case responseStartTimestampTwilio s of
        None \<Rightarrow> Some (latestMediaTimestamp s)
      | Some r \<Rightarrow> if r = 0 then Some (latestMediaTimestamp s) else Some r)"
  by (simp add: forwardAudioDelta_eq truthyNumber_def split: option.splits)

text \<open>
  C4. The response start is taken at the first chunk and kept by the later chunks of the same
  response when the clock at the first chunk is not 0. At 0 it is not kept: in the stream
  \<open>CA1\<close>, with the AI socket open, the first chunk of a response goes out right after
  the start frame, at clock 0, and the response start is 0; a media frame moves the clock to 20; the second chunk of the
  same response then moves the response start to 20. A speech-started event at clock 40 then
  truncates item \<open>I1\<close> at 20 ms, where 40 ms have passed since the first chunk.
\<close>

theorem response_start_overwritten_after_first_chunk_at_zero:
  "responseStartTimestampTwilio (fst (run trackerDeps (initialSession emptyTracker 0 Map.empty 0)
      [AiOpen, startEvent ''CA1'', itemCreatedEvent ''I1'',
       audioDeltaEvent ''I1'' ''AAAA''])) = Some 0
   \<and> responseStartTimestampTwilio (fst (run trackerDeps (initialSession emptyTracker 0 Map.empty 0)
      [AiOpen, startEvent ''CA1'', itemCreatedEvent ''I1'',
       audioDeltaEvent ''I1'' ''AAAA'',
       mediaEvent \<lparr> timestamp = 20, payload = ''b'' \<rparr>,
       audioDeltaEvent ''I1'' ''AAAA''])) = Some 20
   \<and> truncatesSent (snd (run trackerDeps (initialSession emptyTracker 0 Map.empty 0)
      [AiOpen, startEvent ''CA1'', itemCreatedEvent ''I1'',
       audioDeltaEvent ''I1'' ''AAAA'',
       mediaEvent \<lparr> timestamp = 20, payload = ''b'' \<rparr>,
       audioDeltaEvent ''I1'' ''AAAA'',
       mediaEvent \<lparr> timestamp = 40, payload = ''c'' \<rparr>,
       speechStartedEvent])) = [(''I1'', 0, 20)]"
  by (simp add: eval_defs)

subsection \<open>C5: media frames\<close>

text \<open>
  C5. A media frame sets \<^verbatim>\<open>latestMediaTimestamp\<close> to its timestamp, whatever the state of the
  AI socket, and changes nothing else; its payload is sent to the AI socket, unchanged, as an
  \<^verbatim>\<open>input_audio_buffer.append\<close> command exactly when that socket's \<^verbatim>\<open>readyState\<close> is
  \<^verbatim>\<open>OPEN\<close>, and nothing else is sent. After any non-empty sequence of media frames
  \<^verbatim>\<open>latestMediaTimestamp\<close> is the timestamp of the last one (whether or not the timestamps
  are non-decreasing).
\<close>

theorem media_frame_sets_clock_and_forwards_when_open:
  "onConnectionMessage s (TelParsed \<lparr> event = ''media'', media = Some m, start = st \<rparr>)
     = (s\<lparr> latestMediaTimestamp := timestamp m \<rparr>,
        if openAiWsReadyState s = OPEN then [AiSend (InputAudioBufferAppend (payload m))] else [])
   \<and> (frames \<noteq> [] \<longrightarrow>
        latestMediaTimestamp (fst (run D s (map mediaEvent frames))) = timestamp (last frames))"
proof -
  have "latestMediaTimestamp (fst (run D s (map mediaEvent frames))) = timestamp (last frames)"
    if "frames \<noteq> []"
  proof -
    from that obtain fs f where "frames = fs @ [f]"
      by (metis rev_exhaust)
    then show ?thesis
      by (simp add: run_snoc_media)
  qed
  then show ?thesis
    by (simp add: onConnectionMessage_media)
qed

theorem media_frame_sets_clock_and_forwards_when_open_witness:
  "[\<lparr> timestamp = 1000, payload = ''a'' \<rparr>, \<lparr> timestamp = 1020, payload = ''b'' \<rparr>] \<noteq> []
   \<and> sorted (map timestamp
        [\<lparr> timestamp = 1000, payload = ''a'' \<rparr>, \<lparr> timestamp = 1020, payload = ''b'' \<rparr>])
   \<and> latestMediaTimestamp (fst (run trackerDeps startedSession
        (map mediaEvent
           [\<lparr> timestamp = 1000, payload = ''a'' \<rparr>, \<lparr> timestamp = 1020, payload = ''b'' \<rparr>])))
       = 1020
   \<and> snd (onConnectionMessage respondingSession
        (TelParsed \<lparr> event = ''media'', media = Some \<lparr> timestamp = 1820, payload = ''b'' \<rparr>,
                     start = None \<rparr>))
       = [AiSend (InputAudioBufferAppend ''b'')]"
  using media_frame_sets_clock_and_forwards_when_open
    [of respondingSession "\<lparr> timestamp = 1820, payload = ''b'' \<rparr>" None
      "[\<lparr> timestamp = 1000, payload = ''a'' \<rparr>, \<lparr> timestamp = 1020, payload = ''b'' \<rparr>]"
      trackerDeps]
    media_frame_sets_clock_and_forwards_when_open
    [of startedSession "\<lparr> timestamp = 1820, payload = ''b'' \<rparr>" None
      "[\<lparr> timestamp = 1000, payload = ''a'' \<rparr>, \<lparr> timestamp = 1020, payload = ''b'' \<rparr>]"
      trackerDeps]
  by (simp add: respondingSession_def initialSession_def)

subsection \<open>C6: speech-started right after the first chunk at clock 0\<close>

text \<open>Whatever the tracker, as long as it reports no item for the delta (it returns a null
  item, or throws), the four events of the scenario send no truncate command when no item was
  being played before.\<close>

lemma scenario_without_item:
  assumes "lastAssistantItem s = None"
    and "fst (processEvent D (conversation s) \<lparr> rtype = ''response.audio.delta'', rdelta = Some d,
                ritem_id = Some i, ritem = None \<rparr>) \<in> {PeThrow, PeReturn None}"
  shows "truncatesSent (snd (run D s
           [startEvent sid, mediaEvent m, audioDeltaEvent i d, speechStartedEvent])) = []"
proof -
  let ?dl = "\<lparr> rtype = ''response.audio.delta'', rdelta = Some d,
                ritem_id = Some i, ritem = None \<rparr>"
  let ?s2 = "s\<lparr> streamSid := Some sid,
                activeConversations := (activeConversations s)(sid \<mapsto> conversationRef s),
                responseStartTimestampTwilio := None,
                latestMediaTimestamp := timestamp m \<rparr>"
  have pre: "fst (run D s [startEvent sid, mediaEvent m]) = ?s2"
    "truncatesSent (snd (run D s [startEvent sid, mediaEvent m])) = []"
    by (simp_all add: step_def startEvent_def mediaEvent_def onConnectionMessage_start
        onConnectionMessage_media)
  obtain res c1 where pe: "processEvent D (conversation ?s2) ?dl = (res, c1)"
    by fastforce
  have res: "res = PeThrow \<or> res = PeReturn None"
    using assms(2) pe by simp
  let ?s3 = "fst (step D ?s2 (audioDeltaEvent i d))"
  have none: "lastAssistantItem ?s3 = None
      \<and> truncatesSent (snd (step D ?s2 (audioDeltaEvent i d))) = []"
  proof (cases "res = PeReturn None \<and> d \<noteq> []")
    case True
    then show ?thesis
      using pe assms(1)
      by (simp add: step_def audioDeltaEvent_def onOpenAiMessage_delta forwardAudioDelta_eq)
  next
    case False
    then have "res = PeThrow \<or> (rtype ?dl \<noteq> ''input_audio_buffer.speech_started''
           \<and> \<not> (rtype ?dl = ''response.audio.delta'' \<and> truthyString (rdelta ?dl)))"
      using res by (auto simp add: truthyString_def)
    from onOpenAiMessage_other [OF pe this] assms(1) show ?thesis
      by (simp add: step_def audioDeltaEvent_def LOG_EVENT_TYPES_def)
  qed
  have last: "truncatesSent (snd (step D ?s3 speechStartedEvent)) = []"
  proof -
    let ?sp = "\<lparr> rtype = ''input_audio_buffer.speech_started'', rdelta = None,
                  ritem_id = None, ritem = None \<rparr>"
    obtain res2 c2 where pe2: "processEvent D (conversation ?s3) ?sp = (res2, c2)"
      by fastforce
    show ?thesis
    proof (cases res2)
      case PeThrow
      then show ?thesis
        using pe2 by (simp add: step_def speechStartedEvent_def onOpenAiMessage_other
            LOG_EVENT_TYPES_def)
    next
      case (PeReturn item)
      have "truncatesSent (snd (handleSpeechStartedEvent (?s3\<lparr> conversation := c2 \<rparr>))) = []"
        using none
        by (simp add: handleSpeechStartedEvent_def Let_def split: option.splits)
      then show ?thesis
        using pe2 PeReturn by (simp add: step_def speechStartedEvent_def onOpenAiMessage_speech)
    qed
  qed
  have "snd (run D s ([startEvent sid, mediaEvent m] @ [audioDeltaEvent i d, speechStartedEvent]))
      = snd (run D s [startEvent sid, mediaEvent m])
          @ snd (run D ?s2 [audioDeltaEvent i d, speechStartedEvent])"
    unfolding run_append using pre(1) by (simp add: split_beta)
  then show ?thesis
    using pre(2) none last by (simp add: split_beta)
qed

text \<open>Had the tracker reported item \<open>I1\<close> for the delta, the response start 0, which is not
  null, would have let the truncation through: item \<open>I1\<close> truncated at 0 ms.\<close>

lemma scenario_with_known_item:
  "truncatesSent (snd (run trackerDeps (initialSession emptyTracker ref reg now)
     [startEvent ''CA1'', mediaEvent \<lparr> timestamp = 0, payload = ''a'' \<rparr>,
      itemCreatedEvent ''I1'', audioDeltaEvent ''I1'' ''AAAA'', speechStartedEvent]))
   = [(''I1'', 0, 0)]"
  by (simp add: eval_defs)

text \<open>
  C6. From the initial state, whatever the state of the AI socket, over the tracker modelled
  from the spec: the start frame of stream \<open>CA1\<close>, a media frame with timestamp 0 and payload
  \<open>a\<close>, an audio delta for item \<open>I1\<close>, which no event has created, and speech-started. No
  truncate command is sent. (The interruption itself takes place, the response start being 0
  and not null: with the AI socket open, the effects are the payload forwarded to the AI link,
  the media frame and its mark, and the clear frame.)
\<close>

theorem scenario_first_chunk_then_speech_started_sends_no_truncate:
  "truncatesSent (snd (run trackerDeps
     ((initialSession emptyTracker ref reg now)\<lparr> openAiWsReadyState := ai \<rparr>)
     [startEvent ''CA1'', mediaEvent \<lparr> timestamp = 0, payload = ''a'' \<rparr>,
      audioDeltaEvent ''I1'' d, speechStartedEvent])) = []
   \<and> snd (run trackerDeps
     ((initialSession emptyTracker ref reg now)\<lparr> openAiWsReadyState := OPEN \<rparr>)
     [startEvent ''CA1'', mediaEvent \<lparr> timestamp = 0, payload = ''a'' \<rparr>,
      audioDeltaEvent ''I1'' ''AAAA'', speechStartedEvent])
     = [ConsoleLog ''Incoming stream has started'',
        AiSend (InputAudioBufferAppend ''a''),
        TelSend (MediaFrame (Some ''CA1'') ''AAAA''),
        TelSend (MarkFrame (Some ''CA1'') ''responsePart''),
        ConsoleLog ''Received event: input_audio_buffer.speech_started'',
        TelSend (ClearFrame (Some ''CA1''))]"
proof
  let ?s = "(initialSession emptyTracker ref reg now)\<lparr> openAiWsReadyState := ai \<rparr>"
  have "lastAssistantItem ?s = None"
    by (simp add: initialSession_def)
  moreover have "fst (processEvent trackerDeps (conversation ?s)
          \<lparr> rtype = ''response.audio.delta'', rdelta = Some d,
            ritem_id = Some ''I1'', ritem = None \<rparr>) \<in> {PeThrow, PeReturn None}"
    by (simp add: trackerDeps_def trackerProcessEvent_def updateItem_def emptyTracker_def
        initialSession_def)
  ultimately show "truncatesSent (snd (run trackerDeps ?s
     [startEvent ''CA1'', mediaEvent \<lparr> timestamp = 0, payload = ''a'' \<rparr>,
      audioDeltaEvent ''I1'' d, speechStartedEvent])) = []"
    by (rule scenario_without_item)
  show "snd (run trackerDeps
     ((initialSession emptyTracker ref reg now)\<lparr> openAiWsReadyState := OPEN \<rparr>)
     [startEvent ''CA1'', mediaEvent \<lparr> timestamp = 0, payload = ''a'' \<rparr>,
      audioDeltaEvent ''I1'' ''AAAA'', speechStartedEvent])
     = [ConsoleLog ''Incoming stream has started'',
        AiSend (InputAudioBufferAppend ''a''),
        TelSend (MediaFrame (Some ''CA1'') ''AAAA''),
        TelSend (MarkFrame (Some ''CA1'') ''responsePart''),
        ConsoleLog ''Received event: input_audio_buffer.speech_started'',
        TelSend (ClearFrame (Some ''CA1''))]"
    by (simp add: eval_defs)
qed

theorem scenario_first_chunk_then_speech_started_sends_no_truncate_witness:
  "truncatesSent (snd (run trackerDeps
     ((initialSession emptyTracker 0 Map.empty 0)\<lparr> openAiWsReadyState := OPEN \<rparr>)
     [startEvent ''CA1'', mediaEvent \<lparr> timestamp = 0, payload = ''a'' \<rparr>,
      audioDeltaEvent ''I1'' ''AAAA'', speechStartedEvent])) = []"
  using scenario_first_chunk_then_speech_started_sends_no_truncate
    [where ref = 0 and reg = Map.empty and now = 0 and ai = OPEN and d = "''AAAA''"]
  by simp

subsection \<open>C7: closing the links\<close>

text \<open>
  C7, as the spec states it, fails in one direction: when the AI socket closes, the handler
  writes a console line and nothing else; the telephony socket stays as it is.
\<close>

theorem ai_close_leaves_telephony_link_open:
  "connectionReadyState respondingSession = OPEN
   \<and> step trackerDeps respondingSession AiClose
       = (respondingSession\<lparr> openAiWsReadyState := CLOSED \<rparr>,
          [ConsoleLog ''Disconnected from the OpenAI Realtime API''])
   \<and> connectionReadyState (fst (step trackerDeps respondingSession AiClose)) = OPEN"
  by (simp add: step_def onOpenAiClose_def respondingSession_def initialSession_def)

text \<open>
  C7, amended. When the telephony socket closes, \<^verbatim>\<open>openAiWs.close()\<close> is called exactly when
  the AI socket is \<^verbatim>\<open>OPEN\<close> (it is then closing), the eviction is scheduled 300000 ms ahead
  and a console line is written. When the AI socket closes, only a console line is written:
  no call is made on the telephony socket and its \<^verbatim>\<open>readyState\<close> is unchanged.
\<close>

theorem telephony_close_closes_ai_link_only:
  "step D s TelClose =
     (s\<lparr> connectionReadyState := CLOSED,
         openAiWsReadyState := (if openAiWsReadyState s = OPEN then CLOSING else openAiWsReadyState s),
         timers := timers s @ [(clock s + 300000, EvictConversation)] \<rparr>,
      (if openAiWsReadyState s = OPEN then [AiCloseCall] else [])
        @ [ConsoleLog ''Client disconnected.''])
   \<and> step D s AiClose =
       (s\<lparr> openAiWsReadyState := CLOSED \<rparr>,
        [ConsoleLog ''Disconnected from the OpenAI Realtime API''])"
  by (simp add: step_def onConnectionClose_def onOpenAiClose_def)

theorem telephony_close_closes_ai_link_only_witness:
  "openAiWsReadyState respondingSession = OPEN
   \<and> snd (step trackerDeps respondingSession TelClose)
       = [AiCloseCall, ConsoleLog ''Client disconnected.'']
   \<and> openAiWsReadyState (fst (step trackerDeps respondingSession TelClose)) = CLOSING
   \<and> connectionReadyState (fst (step trackerDeps respondingSession AiClose)) = OPEN"
  using telephony_close_closes_ai_link_only [of trackerDeps respondingSession]
  by (simp add: respondingSession_def initialSession_def)

subsection \<open>C8: eviction after the grace period\<close>

text \<open>
  C8. Time is read off a clock in milliseconds, and a timer runs in the first passage of time
  that reaches the moment it is due. A start frame registers the conversation under its
  \<^verbatim>\<open>streamSid\<close>, a non-empty string. Whatever follows on either link, short of another start
  frame, until the telephony socket closes, and whatever the AI socket and the clock do after
  that: as long as less than 300000 ms (5 minutes) have passed since the close, the registry
  still maps the \<^verbatim>\<open>streamSid\<close> to the conversation; once 300000 ms have passed, it has no
  entry for it.
\<close>

theorem eviction_after_grace_period:
  assumes "sid \<noteq> []"
    and "EvictConversation \<notin> snd ` set (timers s)"
    and "\<forall>ev\<in>set mid. \<not> isStartFrame ev \<and> ev \<noteq> TelClose"
    and "\<forall>ev\<in>set post. \<not> isTelephonyEvent ev"
  shows "(elapsed post < 300000 \<longrightarrow>
            activeConversations (fst (run D s (startEvent sid # mid @ TelClose # post))) sid
              = Some (conversationRef s))
       \<and> (300000 \<le> elapsed post \<longrightarrow>
            activeConversations (fst (run D s (startEvent sid # mid @ TelClose # post))) sid
              = None)"
proof -
  let ?s1 = "fst (step D s (startEvent sid))"
  let ?s2 = "fst (run D ?s1 mid)"
  let ?s3 = "fst (step D ?s2 TelClose)"
  let ?s4 = "fst (run D ?s3 post)"
  let ?due = "clock ?s2 + 300000"
  have "registered sid (conversationRef s) ?s1"
    using assms(2)
    by (simp add: step_def startEvent_def onConnectionMessage_start registered_def)
  then have "registered sid (conversationRef s) ?s2"
    using assms(1,3) by (intro run_registered) simp_all
  then have "evictionPending sid (conversationRef s) ?due ?s3"
    by (rule step_close_pending)
  then have p: "evictionPending sid (conversationRef s) ?due ?s4"
    and c: "clock ?s4 = clock ?s3 + elapsed post"
    using run_pending [of sid "conversationRef s" ?due ?s3 post D] assms(1,4) by simp_all
  have c3: "clock ?s3 = clock ?s2"
    using step_clock [of D ?s2 TelClose] by simp
  have final: "fst (run D s (startEvent sid # mid @ TelClose # post)) = ?s4"
    by (simp add: run_append split_beta)
  show ?thesis
    unfolding final using p c c3 by (simp add: evictionPending_def)
qed

theorem eviction_after_grace_period_witness:
  "activeConversations (fst (run trackerDeps (initialSession emptyTracker 7 Map.empty 0)
      (startEvent ''CA1'' # [AiOpen, mediaEvent \<lparr> timestamp = 20, payload = ''a'' \<rparr>, Elapse 5000]
         @ TelClose # [Elapse 299999]))) ''CA1'' = Some 7
   \<and> activeConversations (fst (run trackerDeps (initialSession emptyTracker 7 Map.empty 0)
      (startEvent ''CA1'' # [AiOpen, mediaEvent \<lparr> timestamp = 20, payload = ''a'' \<rparr>, Elapse 5000]
         @ TelClose # [Elapse 299999, AiClose, Elapse 1]))) ''CA1'' = None"
  using eviction_after_grace_period [of "''CA1''" "initialSession emptyTracker 7 Map.empty 0"
      "[AiOpen, mediaEvent \<lparr> timestamp = 20, payload = ''a'' \<rparr>, Elapse 5000]"
      "[Elapse 299999]" trackerDeps]
    eviction_after_grace_period [of "''CA1''" "initialSession emptyTracker 7 Map.empty 0"
      "[AiOpen, mediaEvent \<lparr> timestamp = 20, payload = ''a'' \<rparr>, Elapse 5000]"
      "[Elapse 299999, AiClose, Elapse 1]" trackerDeps]
  by (simp add: initialSession_def isStartFrame_def isTelephonyEvent_def mediaEvent_def)

subsection \<open>C9: malformed messages\<close>

text \<open>
  C9. A telephony message that \<^verbatim>\<open>JSON.parse\<close> rejects changes nothing of the session and
  writes one error line to the console; an AI message that \<^verbatim>\<open>JSON.parse\<close> rejects changes
  nothing and has no effect at all. The session goes on: whatever events follow are handled
  from the unchanged state, as if the malformed message had not arrived.
\<close>

theorem malformed_messages_are_dropped:
  "onConnectionMessage s TelUnparsable = (s, [ConsoleError ''Error parsing message:''])
   \<and> onOpenAiMessage D s AiUnparsable = (s, [])
   \<and> run D s (TelMessage TelUnparsable # evs)
       = (fst (run D s evs), ConsoleError ''Error parsing message:'' # snd (run D s evs))
   \<and> run D s (AiMessage AiUnparsable # evs) = run D s evs"
  by (simp add: onConnectionMessage_def onOpenAiMessage_def step_def split_beta)

theorem malformed_messages_are_dropped_witness:
  "run trackerDeps startedSession
     [TelMessage TelUnparsable, AiMessage AiUnparsable,
      mediaEvent \<lparr> timestamp = 1020, payload = ''b'' \<rparr>]
   = (startedSession\<lparr> latestMediaTimestamp := 1020 \<rparr>,
      [ConsoleError ''Error parsing message:'', AiSend (InputAudioBufferAppend ''b'')])"
proof -
  have open_ai: "openAiWsReadyState startedSession = OPEN"
    by (simp add: startedSession_def eval_defs)
  have "run trackerDeps startedSession [mediaEvent \<lparr> timestamp = 1020, payload = ''b'' \<rparr>]
      = (startedSession\<lparr> latestMediaTimestamp := 1020 \<rparr>, [AiSend (InputAudioBufferAppend ''b'')])"
    using open_ai by (simp add: step_def mediaEvent_def onConnectionMessage_media)
  then show ?thesis
    using malformed_messages_are_dropped [of startedSession trackerDeps
        "[AiMessage AiUnparsable, mediaEvent \<lparr> timestamp = 1020, payload = ''b'' \<rparr>]"]
      malformed_messages_are_dropped [of startedSession trackerDeps
        "[mediaEvent \<lparr> timestamp = 1020, payload = ''b'' \<rparr>]"]
    by simp
qed

subsection \<open>C10: a token in the queue for each mark frame sent\<close>

text \<open>
  C10. In every step of a session, a mark frame is sent on the telephony link exactly when the
  token \<open>responsePart\<close> is appended to \<^verbatim>\<open>markQueue\<close>; when that happens \<^verbatim>\<open>streamSid\<close> is
  set (truthy) and the one mark frame sent carries it. \<^verbatim>\<open>streamSid\<close> is set by start frames
  only: in every session without a start frame it stays null, \<^verbatim>\<open>markQueue\<close> stays empty and
  no mark frame is ever sent. An audio delta that the handler processes while \<^verbatim>\<open>streamSid\<close>
  is null is still forwarded, as a media frame with a null \<^verbatim>\<open>streamSid\<close> and nothing else,
  and leaves \<^verbatim>\<open>responseStartTimestampTwilio\<close> set and \<^verbatim>\<open>markQueue\<close> as it was.
\<close>

theorem mark_frame_sent_iff_token_pushed:
  "((\<exists>e\<in>set (snd (step D s ev)). isMarkFrame e)
      = (markQueue (fst (step D s ev)) = markQueue s @ [''responsePart'']))
   \<and> ((\<exists>e\<in>set (snd (step D s ev)). isMarkFrame e) \<longrightarrow>
        truthyString (streamSid s)
        \<and> filter isMarkFrame (snd (step D s ev))
            = [TelSend (MarkFrame (streamSid s) ''responsePart'')])
   \<and> ((\<forall>e\<in>set evs. \<not> isStartFrame e) \<longrightarrow>
        streamSid (fst (run D (initialSession c ref reg now) evs)) = None
        \<and> markQueue (fst (run D (initialSession c ref reg now) evs)) = []
        \<and> filter isMarkFrame (snd (run D (initialSession c ref reg now) evs)) = [])
   \<and> (streamSid s0 = None \<and> rtype r = ''response.audio.delta'' \<and> rdelta r = Some d \<and> d \<noteq> []
        \<and> processEvent D (conversation s0) r = (PeReturn item, c0) \<longrightarrow>
        snd (onOpenAiMessage D s0 (AiParsed r)) = [TelSend (MediaFrame None (reencodeBase64 D d))]
        \<and> responseStartTimestampTwilio (fst (onOpenAiMessage D s0 (AiParsed r))) \<noteq> None
        \<and> markQueue (fst (onOpenAiMessage D s0 (AiParsed r))) = markQueue s0)"
proof (intro conjI impI)
  have sent: "(\<exists>e\<in>set es. isMarkFrame e) = (filter isMarkFrame es \<noteq> [])" for es :: "effect list"
    by (simp add: filter_empty_conv)
  show "(\<exists>e\<in>set (snd (step D s ev)). isMarkFrame e)
      = (markQueue (fst (step D s ev)) = markQueue s @ [''responsePart''])"
    using step_mark [of D s ev] unfolding sent by auto
  assume "\<exists>e\<in>set (snd (step D s ev)). isMarkFrame e"
  then have "filter isMarkFrame (snd (step D s ev)) \<noteq> []"
    unfolding sent .
  then show "truthyString (streamSid s)"
    and "filter isMarkFrame (snd (step D s ev))
            = [TelSend (MarkFrame (streamSid s) ''responsePart'')]"
    using step_mark [of D s ev] by auto
next
  assume "\<forall>e\<in>set evs. \<not> isStartFrame e"
  then have "streamSid (fst (run D (initialSession c ref reg now) evs)) = None
       \<and> markQueue (fst (run D (initialSession c ref reg now) evs)) = []
       \<and> filter isMarkFrame (snd (run D (initialSession c ref reg now) evs)) = []"
    by (intro run_without_start) (simp_all add: initialSession_def)
  then show "streamSid (fst (run D (initialSession c ref reg now) evs)) = None"
    and "markQueue (fst (run D (initialSession c ref reg now) evs)) = []"
    and "filter isMarkFrame (snd (run D (initialSession c ref reg now) evs)) = []"
    by simp_all
next
  assume a: "streamSid s0 = None \<and> rtype r = ''response.audio.delta'' \<and> rdelta r = Some d
        \<and> d \<noteq> [] \<and> processEvent D (conversation s0) r = (PeReturn item, c0)"
  then have eq: "onOpenAiMessage D s0 (AiParsed r)
      = forwardAudioDelta D (s0\<lparr> conversation := c0 \<rparr>) d item"
    by (simp add: onOpenAiMessage_delta)
  show "snd (onOpenAiMessage D s0 (AiParsed r)) = [TelSend (MediaFrame None (reencodeBase64 D d))]"
    and "responseStartTimestampTwilio (fst (onOpenAiMessage D s0 (AiParsed r))) \<noteq> None"
    and "markQueue (fst (onOpenAiMessage D s0 (AiParsed r))) = markQueue s0"
    using a unfolding eq
    by (simp_all add: forwardAudioDelta_eq truthyString_def truthyNumber_def split: option.splits)
qed

theorem mark_frame_sent_iff_token_pushed_witness:
  "list_ex isMarkFrame (snd (step trackerDeps startedSession (audioDeltaEvent ''I1'' ''AAAA'')))
   \<and> markQueue (fst (step trackerDeps startedSession (audioDeltaEvent ''I1'' ''AAAA'')))
       = [''responsePart'']
   \<and> filter isMarkFrame (snd (step trackerDeps startedSession (audioDeltaEvent ''I1'' ''AAAA'')))
       = [TelSend (MarkFrame (Some ''CA1'') ''responsePart'')]
   \<and> list_all (\<lambda>e. \<not> isStartFrame e)
        [AiOpen, audioDeltaEvent ''I1'' ''AAAA'', mediaEvent \<lparr> timestamp = 20, payload = ''a'' \<rparr>]
   \<and> markQueue (fst (run trackerDeps (initialSession emptyTracker 0 Map.empty 0)
        [AiOpen, audioDeltaEvent ''I1'' ''AAAA'', mediaEvent \<lparr> timestamp = 20, payload = ''a'' \<rparr>]))
       = []
   \<and> filter isMarkFrame (snd (run trackerDeps (initialSession emptyTracker 0 Map.empty 0)
        [AiOpen, audioDeltaEvent ''I1'' ''AAAA'', mediaEvent \<lparr> timestamp = 20, payload = ''a'' \<rparr>]))
       = []
   \<and> streamSid (initialSession emptyTracker 0 Map.empty 0) = None
   \<and> snd (onOpenAiMessage trackerDeps (initialSession emptyTracker 0 Map.empty 0)
        (AiParsed \<lparr> rtype = ''response.audio.delta'', rdelta = Some ''AAAA'',
                    ritem_id = Some ''I1'', ritem = None \<rparr>))
       = [TelSend (MediaFrame None ''AAAA'')]
   \<and> responseStartTimestampTwilio (fst (onOpenAiMessage trackerDeps
        (initialSession emptyTracker 0 Map.empty 0)
        (AiParsed \<lparr> rtype = ''response.audio.delta'', rdelta = Some ''AAAA'',
                    ritem_id = Some ''I1'', ritem = None \<rparr>))) = Some 0"
proof -
  have sent: "list_ex isMarkFrame
      (snd (step trackerDeps startedSession (audioDeltaEvent ''I1'' ''AAAA'')))"
    by (simp add: startedSession_def eval_defs)
  have quiet: "list_all (\<lambda>e. \<not> isStartFrame e)
        [AiOpen, audioDeltaEvent ''I1'' ''AAAA'', mediaEvent \<lparr> timestamp = 20, payload = ''a'' \<rparr>]"
    by (simp add: isStartFrame_def audioDeltaEvent_def mediaEvent_def)
  have start0: "responseStartTimestampTwilio (fst (onOpenAiMessage trackerDeps
        (initialSession emptyTracker 0 Map.empty 0)
        (AiParsed \<lparr> rtype = ''response.audio.delta'', rdelta = Some ''AAAA'',
                    ritem_id = Some ''I1'', ritem = None \<rparr>))) = Some 0"
    by (simp add: eval_defs)
  have sid: "streamSid startedSession = Some ''CA1''" "markQueue startedSession = []"
    by (simp_all add: startedSession_def eval_defs)
  from mark_frame_sent_iff_token_pushed
    [of trackerDeps startedSession "audioDeltaEvent ''I1'' ''AAAA''"
      "[AiOpen, audioDeltaEvent ''I1'' ''AAAA'', mediaEvent \<lparr> timestamp = 20, payload = ''a'' \<rparr>]"
      emptyTracker 0 Map.empty 0 "initialSession emptyTracker 0 Map.empty 0"
      "\<lparr> rtype = ''response.audio.delta'', rdelta = Some ''AAAA'',
         ritem_id = Some ''I1'', ritem = None \<rparr>" "''AAAA''" None emptyTracker]
    sent quiet start0 sid
  show ?thesis
    by (simp add: list_ex_iff list_all_iff initialSession_def trackerDeps_def
        trackerProcessEvent_def updateItem_def emptyTracker_def)
qed

end
